theory Spec2Isabelle
  imports Main "HOL-Library.AList"
begin

section \<open>The chat server of src/index.js and its store\<close>

text \<open>
  The socket handlers of \<^verbatim>\<open>src/index.js\<close> keep three pieces of process state (the
  rate-limit map, the typing map and the pending timeouts of the runtime) and talk to
  the SQLite tables declared in \<^verbatim>\<open>src/database/initDb.js\<close>. JavaScript \<^verbatim>\<open>Map\<close>s keep
  insertion order, so they are association lists here, read with \<open>map_of\<close> and written
  with \<open>AList.update\<close> (replace in place, or append) and \<open>AList.delete\<close>.
  Identifiers are the INTEGER keys of the tables (natural numbers), times are
  milliseconds as \<^verbatim>\<open>Date.now()\<close> returns them (integers), and a JavaScript string is the
  list of its UTF-16 code units.
\<close>

type_synonym jsstring = "nat list"

subsection \<open>Rate limiter (index.js, lines 62-65 and 106-124)\<close>

record rateData =
  count :: nat
  timestamp :: int

definition RATE_LIMIT_WINDOW :: int where
  "RATE_LIMIT_WINDOW = 10000"

definition MAX_MESSAGES_PER_WINDOW :: nat where
  "MAX_MESSAGES_PER_WINDOW = 5"

text \<open>
  The rate-limiting block of the \<^verbatim>\<open>send-message\<close> handler: the result is whether the
  handler goes on (\<open>True\<close>) or emits the throttling error and returns (\<open>False\<close>), with
  the map as the block leaves it. \<^verbatim>\<open>userRateData.count++\<close> mutates the object held by
  the map, which is an update of the entry in place.
\<close>

definition rateLimit ::
  "(nat \<times> rateData) list \<Rightarrow> nat \<Rightarrow> int \<Rightarrow> bool \<times> (nat \<times> rateData) list" where
  "rateLimit m senderId now =
     (case map_of m senderId of
        Some userRateData \<Rightarrow>
          if now - timestamp userRateData < RATE_LIMIT_WINDOW then
            (if count userRateData \<ge> MAX_MESSAGES_PER_WINDOW then (False, m)
             else (True, AList.update senderId
                     (userRateData\<lparr>count := count userRateData + 1\<rparr>) m))
          else (True, AList.update senderId \<lparr>count = 1, timestamp = now\<rparr> m)
      | None \<Rightarrow> (True, AList.update senderId \<lparr>count = 1, timestamp = now\<rparr> m))"

text \<open>The decisions taken for one sender's sends at the given times, in order.\<close>

fun rateLimitAll ::
  "(nat \<times> rateData) list \<Rightarrow> nat \<Rightarrow> int list \<Rightarrow> bool list \<times> (nat \<times> rateData) list" where
  "rateLimitAll m senderId [] = ([], m)"
| "rateLimitAll m senderId (now # rest) =
     (let (ok, m1) = rateLimit m senderId now;
          (oks, m2) = rateLimitAll m1 senderId rest
      in (ok # oks, m2))"

text \<open>
  The admission rule as section 4.1 of the specification words it, over an abstract
  table of windows: \<open>None\<close> when the sender has no window.
\<close>

datatype admission = Allowed | Rejected

definition admit_spec ::
  "(nat \<rightharpoonup> rateData) \<Rightarrow> nat \<Rightarrow> int \<Rightarrow> admission \<times> (nat \<rightharpoonup> rateData)" where
  "admit_spec w sender now =
     (case w sender of
        None \<Rightarrow> (Allowed, w(sender \<mapsto> \<lparr>count = 1, timestamp = now\<rparr>))
      | Some d \<Rightarrow>
          if now - timestamp d < 10000 then
            (if count d < 5 then (Allowed, w(sender \<mapsto> d\<lparr>count := count d + 1\<rparr>))
             else (Rejected, w))
          else (Allowed, w(sender \<mapsto> \<lparr>count = 1, timestamp = now\<rparr>)))"

definition decision :: "bool \<Rightarrow> admission" where
  "decision ok = (if ok then Allowed else Rejected)"

subsection \<open>Tables (database/initDb.js)\<close>

text \<open>
  Only the columns the chat code reads or writes are kept. \<^verbatim>\<open>isDeleted\<close> is the INTEGER
  column (0 or 1), timestamps are seconds, and a nullable column is an \<open>option\<close>.
  The database is opened without \<^verbatim>\<open>PRAGMA foreign_keys\<close>, so SQLite does not enforce the
  FOREIGN KEY clauses: the tables are independent lists of rows, in rowid order.
\<close>

record project =
  p_id :: nat
  p_authorId :: nat

record projectMember =
  pm_projectId :: nat
  pm_userId :: nat
  pm_invitationStatus :: string

record chatMessage =
  cm_id :: nat
  cm_projectId :: nat
  cm_senderId :: nat
  cm_senderName :: jsstring
  cm_messageContent :: jsstring
  cm_replyToMessageId :: "nat option"
  cm_replyToUserId :: "nat option"
  cm_replyToUserName :: "jsstring option"
  cm_replyToMessageContent :: "jsstring option"
  cm_messageStatus :: string
  cm_isDeleted :: nat
  cm_editedAt :: "int option"
  cm_createdAt :: int
  cm_updatedAt :: int

subsection \<open>Connections and process state\<close>

text \<open>
  A connection carries the rooms it joined (a room \<^verbatim>\<open>project-<id>\<close> is named by the
  project id) and the three fields the join handler stamps on it. A fresh connection
  has no room and no stamp: the specification's \<open>Connected\<close> state.
\<close>

record socket =
  rooms :: "nat list"
  sock_projectId :: "nat option"
  sock_userId :: "nat option"
  sock_userName :: "jsstring option"

definition newSocket :: socket where
  "newSocket = \<lparr>rooms = [], sock_projectId = None, sock_userId = None, sock_userName = None\<rparr>"

record state =
  userMessageRateLimit :: "(nat \<times> rateData) list"
  typingUsers :: "(nat \<times> (nat \<times> nat) list) list"
  timeouts :: "(nat \<times> nat \<times> nat) list"
  nextTimeout :: nat
  sockets :: "(nat \<times> socket) list"
  Projects :: "project list"
  ProjectMembers :: "projectMember list"
  ChatMessages :: "chatMessage list"
  ChatMessages_seq :: nat

text \<open>
  \<open>timeouts\<close> is the runtime's table of pending \<^verbatim>\<open>setTimeout\<close> calls: the handle, and the
  \<open>(projectId, userId)\<close> its callback will clear. \<open>ChatMessages_seq\<close> is the AUTOINCREMENT
  counter of the table. The server starts with empty maps over whatever the database
  file holds.
\<close>

definition startState :: "project list \<Rightarrow> projectMember list \<Rightarrow> chatMessage list \<Rightarrow> nat \<Rightarrow> state" where
  "startState ps pms cms sq =
     \<lparr>userMessageRateLimit = [], typingUsers = [], timeouts = [], nextTimeout = 0,
      sockets = [], Projects = ps, ProjectMembers = pms, ChatMessages = cms,
      ChatMessages_seq = sq\<rparr>"

subsection \<open>Emitted events\<close>

text \<open>
  \<^verbatim>\<open>socket.emit\<close> reaches the handler's own connection, \<^verbatim>\<open>io.to(room).emit\<close> every
  connection in the room, \<^verbatim>\<open>socket.to(room).emit\<close> every connection in the room but the
  handler's own.
\<close>

datatype target = ToSocket nat | ToRoom nat | ToRoomExcept nat nat

datatype payload =
    Error string
  | UserJoined nat jsstring int
  | NewMessage "chatMessage option"
  | UserTyping nat jsstring
  | UserStoppedTyping nat
  | MessageEdited "chatMessage option"
  | MessageDeleted nat
  | UserLeft "nat option" "jsstring option" int

type_synonym emit = "target \<times> payload"

fun recipients :: "(nat \<times> socket) list \<Rightarrow> target \<Rightarrow> nat list" where
  "recipients ss (ToSocket sid) = [sid]"
| "recipients ss (ToRoom r) = map fst (filter (\<lambda>(i, c). r \<in> set (rooms c)) ss)"
| "recipients ss (ToRoomExcept r sid) =
     map fst (filter (\<lambda>(i, c). r \<in> set (rooms c) \<and> i \<noteq> sid) ss)"

fun isError :: "emit \<Rightarrow> bool" where
  "isError (ToSocket sid, Error msg) = True"
| "isError e = False"

subsection \<open>JavaScript truthiness and trimming\<close>

text \<open>
  An optional numeric field is falsy when it is missing or 0. \<^verbatim>\<open>String.prototype.trim\<close>
  strips the WhiteSpace and LineTerminator code units of ECMAScript from both ends.
\<close>

definition truthy :: "nat option \<Rightarrow> bool" where
  "truthy x = (case x of None \<Rightarrow> False | Some n \<Rightarrow> n \<noteq> 0)"

definition orNull :: "nat option \<Rightarrow> nat option" where
  "orNull x = (if truthy x then x else None)"

definition isWhiteSpace :: "nat \<Rightarrow> bool" where
  "isWhiteSpace c \<longleftrightarrow>
     c = 9 \<or> c = 10 \<or> c = 11 \<or> c = 12 \<or> c = 13 \<or> c = 32 \<or> c = 160 \<or> c = 5760 \<or>
     (8192 \<le> c \<and> c \<le> 8202) \<or> c = 8232 \<or> c = 8233 \<or> c = 8239 \<or> c = 8287 \<or>
     c = 12288 \<or> c = 65279"

definition trim :: "jsstring \<Rightarrow> jsstring" where
  "trim s = rev (dropWhile isWhiteSpace (rev (dropWhile isWhiteSpace s)))"

text \<open>\<^verbatim>\<open>!messageContent || !messageContent.trim()\<close>, for a content that is a string or missing.\<close>

definition emptyContent :: "jsstring option \<Rightarrow> bool" where
  "emptyContent messageContent =
     (case messageContent of None \<Rightarrow> True | Some c \<Rightarrow> c = [] \<or> trim c = [])"

subsection \<open>Store calls\<close>

text \<open>
  Every store call can fail (the \<^verbatim>\<open>err\<close> argument of its callback). A handler run is given
  the set of its store calls that fail, numbered in the order the handler issues them.
\<close>

definition CURRENT_TIMESTAMP :: "int \<Rightarrow> int" where
  "CURRENT_TIMESTAMP now = now div 1000"

text \<open>
  \<^verbatim>\<open>isProjectMember\<close> of the chat controllers (required by index.js as
  \<^verbatim>\<open>./controllers/chatControllers\<close>; in the source tree from line 1636 of
  \<^verbatim>\<open>src/controllers/projectControllers.js\<close>): the first row of the join of ProjectMembers
  with Projects.
\<close>

definition isProjectMember :: "state \<Rightarrow> nat \<Rightarrow> nat \<Rightarrow> projectMember option" where
  "isProjectMember s projectId userId =
     find (\<lambda>pm. list_ex (\<lambda>p. p_id p = pm_projectId pm) (Projects s) \<and>
                pm_projectId pm = projectId \<and> pm_userId pm = userId \<and>
                pm_invitationStatus pm = ''approved'')
          (ProjectMembers s)"

text \<open>\<^verbatim>\<open>SELECT * FROM ChatMessages WHERE id = ?\<close>, with and without \<^verbatim>\<open>AND isDeleted = 0\<close>.\<close>

definition getMessage :: "state \<Rightarrow> nat \<Rightarrow> chatMessage option" where
  "getMessage s i = find (\<lambda>m. cm_id m = i) (ChatMessages s)"

definition getLiveMessage :: "state \<Rightarrow> nat \<Rightarrow> chatMessage option" where
  "getLiveMessage s i = find (\<lambda>m. cm_id m = i \<and> cm_isDeleted m = 0) (ChatMessages s)"

text \<open>
  The INSERT of the send handler. The new id is one more than the largest id the table
  has held (AUTOINCREMENT); the columns not listed take their defaults.
\<close>

definition lastID :: "state \<Rightarrow> nat" where
  "lastID s = Suc (fold max (map cm_id (ChatMessages s)) (ChatMessages_seq s))"

definition newRow ::
  "state \<Rightarrow> int \<Rightarrow> nat \<Rightarrow> nat \<Rightarrow> jsstring \<Rightarrow> jsstring \<Rightarrow> nat option \<Rightarrow> nat option \<Rightarrow>
     jsstring option \<Rightarrow> jsstring option \<Rightarrow> chatMessage" where
  "newRow s now projectId senderId senderName content replyId replyUid replyName replyContent =
     \<lparr>cm_id = lastID s, cm_projectId = projectId, cm_senderId = senderId,
      cm_senderName = senderName, cm_messageContent = content,
      cm_replyToMessageId = replyId, cm_replyToUserId = replyUid,
      cm_replyToUserName = replyName, cm_replyToMessageContent = replyContent,
      cm_messageStatus = ''sent'', cm_isDeleted = 0, cm_editedAt = None,
      cm_createdAt = CURRENT_TIMESTAMP now, cm_updatedAt = CURRENT_TIMESTAMP now\<rparr>"

definition insertMessage :: "state \<Rightarrow> chatMessage \<Rightarrow> state" where
  "insertMessage s row =
     s\<lparr>ChatMessages := ChatMessages s @ [row], ChatMessages_seq := cm_id row\<rparr>"

text \<open>The two UPDATE statements: every row with the id is rewritten.\<close>

definition updateContent :: "state \<Rightarrow> nat \<Rightarrow> jsstring \<Rightarrow> int \<Rightarrow> state" where
  "updateContent s messageId content now =
     s\<lparr>ChatMessages :=
         map (\<lambda>m. if cm_id m = messageId
                   then m\<lparr>cm_messageContent := content,
                          cm_editedAt := Some (CURRENT_TIMESTAMP now),
                          cm_updatedAt := CURRENT_TIMESTAMP now\<rparr>
                   else m)
             (ChatMessages s)\<rparr>"

definition softDelete :: "state \<Rightarrow> nat \<Rightarrow> int \<Rightarrow> state" where
  "softDelete s messageId now =
     s\<lparr>ChatMessages :=
         map (\<lambda>m. if cm_id m = messageId
                   then m\<lparr>cm_isDeleted := 1, cm_updatedAt := CURRENT_TIMESTAMP now\<rparr>
                   else m)
             (ChatMessages s)\<rparr>"

subsection \<open>Typing presence (index.js, lines 199-221 and 353-369)\<close>

text \<open>
  \<^verbatim>\<open>clearTypingIndicator\<close>: when the user has an entry, its timeout is cleared, the entry is
  deleted from the project's map (mutated in place), the room is notified, and an
  empty project map is dropped. Clearing a handle that has already fired does nothing.
\<close>

definition clearTimeout :: "nat \<Rightarrow> state \<Rightarrow> state" where
  "clearTimeout t s = s\<lparr>timeouts := AList.delete t (timeouts s)\<rparr>"

definition setTimeout :: "nat \<Rightarrow> nat \<Rightarrow> state \<Rightarrow> nat \<times> state" where
  "setTimeout projectId userId s =
     (nextTimeout s,
      s\<lparr>timeouts := timeouts s @ [(nextTimeout s, (projectId, userId))],
        nextTimeout := Suc (nextTimeout s)\<rparr>)"

definition clearTypingIndicator :: "state \<Rightarrow> nat \<Rightarrow> nat \<Rightarrow> state \<times> emit list" where
  "clearTypingIndicator s projectId userId =
     (case map_of (typingUsers s) projectId of
        None \<Rightarrow> (s, [])
      | Some projectTyping \<Rightarrow>
          (case map_of projectTyping userId of
             None \<Rightarrow> (s, [])
           | Some t \<Rightarrow>
               let s1 = clearTimeout t s;
                   projectTyping' = AList.delete userId projectTyping;
                   s2 = s1\<lparr>typingUsers :=
                          (if projectTyping' = []
                           then AList.delete projectId (typingUsers s1)
                           else AList.update projectId projectTyping' (typingUsers s1))\<rparr>
               in (s2, [(ToRoom projectId, UserStoppedTyping userId)])))"

definition typing :: "nat \<Rightarrow> nat \<Rightarrow> nat \<Rightarrow> jsstring \<Rightarrow> state \<Rightarrow> state \<times> emit list" where
  "typing sid projectId userId userName s =
     (let (s1, out1) = clearTypingIndicator s projectId userId;
          projectTyping = (case map_of (typingUsers s1) projectId of
                             None \<Rightarrow> [] | Some pt \<Rightarrow> pt);
          (t, s2) = setTimeout projectId userId s1;
          s3 = s2\<lparr>typingUsers :=
                 AList.update projectId (AList.update userId t projectTyping) (typingUsers s2)\<rparr>
      in (s3, out1 @ [(ToRoomExcept projectId sid, UserTyping userId userName)]))"

definition stop_typing :: "nat \<Rightarrow> nat \<Rightarrow> nat \<Rightarrow> state \<Rightarrow> state \<times> emit list" where
  "stop_typing sid projectId userId s = clearTypingIndicator s projectId userId"

text \<open>The timeout callback: the handle is no longer pending when its callback runs.\<close>

definition timeout_fires :: "nat \<Rightarrow> state \<Rightarrow> state \<times> emit list" where
  "timeout_fires t s =
     (case map_of (timeouts s) t of
        None \<Rightarrow> (s, [])
      | Some (projectId, userId) \<Rightarrow> clearTypingIndicator (clearTimeout t s) projectId userId)"

subsection \<open>Join and disconnect (index.js, lines 74-101 and 335-349)\<close>

definition join_project_chat ::
  "nat \<Rightarrow> nat \<Rightarrow> nat \<Rightarrow> jsstring \<Rightarrow> int \<Rightarrow> nat set \<Rightarrow> state \<Rightarrow> state \<times> emit list" where
  "join_project_chat sid projectId userId userName now faults s =
     (if 0 \<in> faults then (s, [(ToSocket sid, Error ''Failed to join chat'')])
      else if isProjectMember s projectId userId = None
      then (s, [(ToSocket sid, Error ''You must be a project member to join chat'')])
      else (s\<lparr>sockets :=
               AList.map_entry sid
                 (\<lambda>c. c\<lparr>rooms := List.insert projectId (rooms c),
                        sock_projectId := Some projectId,
                        sock_userId := Some userId,
                        sock_userName := Some userName\<rparr>)
                 (sockets s)\<rparr>,
            [(ToRoomExcept projectId sid, UserJoined userId userName now)]))"

text \<open>
  By the time \<^verbatim>\<open>disconnect\<close> is delivered the connection has left its rooms; its stamped
  fields are still readable.
\<close>

definition disconnect :: "nat \<Rightarrow> int \<Rightarrow> state \<Rightarrow> state \<times> emit list" where
  "disconnect sid now s =
     (case map_of (sockets s) sid of
        None \<Rightarrow> (s, [])
      | Some c \<Rightarrow>
          let s0 = s\<lparr>sockets := AList.delete sid (sockets s)\<rparr> in
          if truthy (sock_projectId c) \<and> truthy (sock_userId c) then
            (case (sock_projectId c, sock_userId c) of
               (Some projectId, Some userId) \<Rightarrow>
                 let (s1, out1) = clearTypingIndicator s0 projectId userId
                 in (s1, out1 @ [(ToRoomExcept projectId sid,
                                  UserLeft (sock_userId c) (sock_userName c) now)])
             | _ \<Rightarrow> (s0, []))
          else (s0, []))"

subsection \<open>Send, edit and delete (index.js, lines 104-196 and 224-332)\<close>

text \<open>
  Store calls of \<^verbatim>\<open>send-message\<close>: 0 the membership query, 1 the reply lookup, 2 the
  INSERT, 3 the read-back of the new row. A failing read-back is only logged.
\<close>

definition send_message ::
  "nat \<Rightarrow> nat \<Rightarrow> nat \<Rightarrow> jsstring \<Rightarrow> jsstring option \<Rightarrow> nat option \<Rightarrow> nat option \<Rightarrow>
     int \<Rightarrow> nat set \<Rightarrow> state \<Rightarrow> state \<times> emit list" where
  "send_message sid projectId senderId senderName messageContent replyToMessageId replyToUserId
       now faults s =
     (let (ok, m) = rateLimit (userMessageRateLimit s) senderId now;
          s1 = s\<lparr>userMessageRateLimit := m\<rparr>
      in
      if \<not> ok then
        (s1, [(ToSocket sid,
               Error ''You are sending messages too quickly. Please wait a moment.'')])
      else if emptyContent messageContent then
        (s1, [(ToSocket sid, Error ''Message cannot be empty'')])
      else if 0 \<in> faults then
        (s1, [(ToSocket sid, Error ''Failed to send message'')])
      else if isProjectMember s1 projectId senderId = None then
        (s1, [(ToSocket sid, Error ''You must be a project member to send messages'')])
      else if truthy replyToMessageId \<and> 1 \<in> faults then
        (s1, [(ToSocket sid, Error ''Failed to send message'')])
      else
        let replyToMessage =
              (case replyToMessageId of
                 Some r \<Rightarrow> if r \<noteq> 0 then getLiveMessage s1 r else None
               | None \<Rightarrow> None);
            row = newRow s1 now projectId senderId senderName
                    (case messageContent of Some c \<Rightarrow> c | None \<Rightarrow> [])
                    (orNull replyToMessageId) (orNull replyToUserId)
                    (map_option cm_senderName replyToMessage)
                    (map_option cm_messageContent replyToMessage)
        in
        if 2 \<in> faults then
          (s1, [(ToSocket sid, Error ''Failed to send message'')])
        else
          let s2 = insertMessage s1 row in
          if 3 \<in> faults then (s2, [])
          else
            let message = getMessage s2 (lastID s1);
                (s3, out3) = clearTypingIndicator s2 projectId senderId
            in (s3, (ToRoom projectId, NewMessage message) # out3))"

text \<open>
  Store calls of \<^verbatim>\<open>edit-message\<close>: 0 the lookup, 1 the UPDATE, 2 the read-back. The
  comparison \<^verbatim>\<open>message.senderId != userId\<close> is on numbers here.
\<close>

definition edit_message ::
  "nat \<Rightarrow> nat \<Rightarrow> nat \<Rightarrow> jsstring option \<Rightarrow> int \<Rightarrow> nat set \<Rightarrow> state \<Rightarrow> state \<times> emit list" where
  "edit_message sid messageId userId messageContent now faults s =
     (if emptyContent messageContent then
        (s, [(ToSocket sid, Error ''Message cannot be empty'')])
      else if 0 \<in> faults then
        (s, [(ToSocket sid, Error ''Failed to edit message'')])
      else
        case getLiveMessage s messageId of
          None \<Rightarrow> (s, [(ToSocket sid, Error ''Message not found'')])
        | Some message \<Rightarrow>
            if cm_senderId message \<noteq> userId then
              (s, [(ToSocket sid, Error ''You can only edit your own messages'')])
            else if 1 \<in> faults then
              (s, [(ToSocket sid, Error ''Failed to edit message'')])
            else
              let s1 = updateContent s messageId
                         (case messageContent of Some c \<Rightarrow> c | None \<Rightarrow> []) now
              in if 2 \<in> faults then (s1, [])
                 else (s1, [(ToRoom (cm_projectId message),
                             MessageEdited (getMessage s1 messageId))]))"

text \<open>Store calls of \<^verbatim>\<open>delete-message\<close>: 0 the lookup, 1 the UPDATE.\<close>

definition delete_message ::
  "nat \<Rightarrow> nat \<Rightarrow> nat \<Rightarrow> int \<Rightarrow> nat set \<Rightarrow> state \<Rightarrow> state \<times> emit list" where
  "delete_message sid messageId userId now faults s =
     (if 0 \<in> faults then
        (s, [(ToSocket sid, Error ''Failed to delete message'')])
      else
        case getLiveMessage s messageId of
          None \<Rightarrow> (s, [(ToSocket sid, Error ''Message not found'')])
        | Some message \<Rightarrow>
            if cm_senderId message \<noteq> userId then
              (s, [(ToSocket sid, Error ''You can only delete your own messages'')])
            else if 1 \<in> faults then
              (s, [(ToSocket sid, Error ''Failed to delete message'')])
            else (softDelete s messageId now,
                  [(ToRoom (cm_projectId message), MessageDeleted messageId)]))"

subsection \<open>History pages (getChatHistory of the chat controllers)\<close>

text \<open>
  The page query: the project's rows with \<^verbatim>\<open>isDeleted = 0\<close>, by \<^verbatim>\<open>createdAt\<close> ascending
  (rows of the same second in rowid order), then \<^verbatim>\<open>LIMIT ? OFFSET ?\<close>, where SQLite reads a
  negative limit as no limit and a negative offset as 0.
\<close>

definition listPage :: "state \<Rightarrow> nat \<Rightarrow> int \<Rightarrow> int \<Rightarrow> chatMessage list" where
  "listPage s projectId limit offset =
     (let rows = sort_key cm_createdAt
                   (filter (\<lambda>m. cm_projectId m = projectId \<and> cm_isDeleted m = 0)
                      (ChatMessages s));
          rest = drop (nat offset) rows
      in if limit < 0 then rest else take (nat limit) rest)"

text \<open>
  An HTTP response: a status with its message, the page of \<^verbatim>\<open>getChatHistory\<close> with the
  total, or a status and message with the row in \<^verbatim>\<open>data\<close>.
\<close>

datatype response =
    Status nat string
  | Messages "chatMessage list" nat
  | Data nat string "chatMessage option"

text \<open>
  Store calls of \<^verbatim>\<open>getChatHistory\<close>: 0 the membership query, 1 the count, 2 the page. The
  response keeps the rows and the total; \<^verbatim>\<open>page\<close> and \<^verbatim>\<open>limit\<close> are taken as numbers.
\<close>

definition getChatHistory ::
  "state \<Rightarrow> nat \<Rightarrow> nat option \<Rightarrow> int \<Rightarrow> int \<Rightarrow> nat set \<Rightarrow> response" where
  "getChatHistory s projectId userId page limit faults =
     (case userId of
        None \<Rightarrow> Status 400 ''User ID is required''
      | Some u \<Rightarrow>
          if 0 \<in> faults then Status 500 ''Internal server error''
          else if isProjectMember s projectId u = None
          then Status 403 ''You must be a project member to view chat''
          else if 1 \<in> faults then Status 500 ''Failed to count messages''
          else if 2 \<in> faults then Status 500 ''Failed to fetch messages''
          else Messages (listPage s projectId limit ((page - 1) * limit))
                 (length (filter (\<lambda>m. cm_projectId m = projectId \<and> cm_isDeleted m = 0)
                            (ChatMessages s))))"

subsection \<open>The HTTP chat API (sendMessage, editMessage, deleteMessage, updateMessageStatus)\<close>

text \<open>
  The same store calls behind \<^verbatim>\<open>/api/chat\<close>. A body field that is missing is \<open>None\<close>; a
  required field is refused when it is falsy (missing, 0 or the empty string). Store
  calls are numbered as in the socket handlers.
\<close>

definition sendMessage ::
  "nat option \<Rightarrow> nat option \<Rightarrow> jsstring option \<Rightarrow> jsstring option \<Rightarrow> nat option \<Rightarrow> nat option \<Rightarrow>
     int \<Rightarrow> nat set \<Rightarrow> state \<Rightarrow> state \<times> response" where
  "sendMessage projectId senderId senderName messageContent replyToMessageId replyToUserId
       now faults s =
     (case (projectId, senderId, senderName, messageContent) of
        (Some p, Some u, Some n, Some c) \<Rightarrow>
          if p = 0 \<or> u = 0 \<or> n = [] \<or> c = [] then
            (s, Status 400
                  ''Project ID, sender ID, sender name, and message content are required'')
          else if trim c = [] then (s, Status 400 ''Message cannot be empty'')
          else if 0 \<in> faults then (s, Status 500 ''Internal server error'')
          else if isProjectMember s p u = None then
            (s, Status 403 ''You must be a project member to send messages'')
          else if truthy replyToMessageId \<and> 1 \<in> faults then
            (s, Status 500 ''Internal server error'')
          else
            let replyToMessage =
                  (case replyToMessageId of
                     Some r \<Rightarrow> if r \<noteq> 0 then getLiveMessage s r else None
                   | None \<Rightarrow> None);
                row = newRow s now p u n c (orNull replyToMessageId) (orNull replyToUserId)
                        (map_option cm_senderName replyToMessage)
                        (map_option cm_messageContent replyToMessage)
            in
            if 2 \<in> faults then (s, Status 500 ''Failed to send message'')
            else
              let s2 = insertMessage s row in
              if 3 \<in> faults then (s2, Status 500 ''Message sent but failed to fetch'')
              else (s2, Data 201 ''Message sent successfully'' (getMessage s2 (lastID s)))
      | _ \<Rightarrow>
          (s, Status 400
                ''Project ID, sender ID, sender name, and message content are required''))"

definition editMessage ::
  "nat \<Rightarrow> nat option \<Rightarrow> jsstring option \<Rightarrow> int \<Rightarrow> nat set \<Rightarrow> state \<Rightarrow> state \<times> response" where
  "editMessage messageId userId messageContent now faults s =
     (case (userId, messageContent) of
        (Some u, Some c) \<Rightarrow>
          if u = 0 \<or> c = [] then (s, Status 400 ''User ID and message content are required'')
          else if trim c = [] then (s, Status 400 ''Message cannot be empty'')
          else if 0 \<in> faults then (s, Status 500 ''Internal server error'')
          else
            (case getLiveMessage s messageId of
               None \<Rightarrow> (s, Status 404 ''Message not found'')
             | Some message \<Rightarrow>
                 if cm_senderId message \<noteq> u then
                   (s, Status 403 ''You can only edit your own messages'')
                 else if 1 \<in> faults then (s, Status 500 ''Failed to edit message'')
                 else
                   let s1 = updateContent s messageId c now in
                   if 2 \<in> faults then (s1, Status 500 ''Message updated but failed to fetch'')
                   else (s1, Data 200 ''Message edited successfully'' (getMessage s1 messageId)))
      | _ \<Rightarrow> (s, Status 400 ''User ID and message content are required''))"

definition deleteMessage ::
  "nat \<Rightarrow> nat option \<Rightarrow> int \<Rightarrow> nat set \<Rightarrow> state \<Rightarrow> state \<times> response" where
  "deleteMessage messageId userId now faults s =
     (if \<not> truthy userId then (s, Status 400 ''User ID is required'')
      else if 0 \<in> faults then (s, Status 500 ''Internal server error'')
      else
        case getLiveMessage s messageId of
          None \<Rightarrow> (s, Status 404 ''Message not found'')
        | Some message \<Rightarrow>
            if Some (cm_senderId message) \<noteq> userId then
              (s, Status 403 ''You can only delete your own messages'')
            else if 1 \<in> faults then (s, Status 500 ''Failed to delete message'')
            else (softDelete s messageId now, Status 200 ''Message deleted successfully''))"

text \<open>\<^verbatim>\<open>UPDATE ChatMessages SET messageStatus = ?, updatedAt = CURRENT_TIMESTAMP WHERE id = ?\<close>.\<close>

definition setStatus :: "state \<Rightarrow> nat \<Rightarrow> string \<Rightarrow> int \<Rightarrow> state" where
  "setStatus s messageId status now =
     s\<lparr>ChatMessages :=
         map (\<lambda>m. if cm_id m = messageId
                   then m\<lparr>cm_messageStatus := status, cm_updatedAt := CURRENT_TIMESTAMP now\<rparr>
                   else m)
             (ChatMessages s)\<rparr>"

definition updateMessageStatus ::
  "nat \<Rightarrow> string option \<Rightarrow> int \<Rightarrow> nat set \<Rightarrow> state \<Rightarrow> state \<times> response" where
  "updateMessageStatus messageId status now faults s =
     (case status of
        None \<Rightarrow> (s, Status 400 ''Valid status is required (sent, delivered, read)'')
      | Some st \<Rightarrow>
          if st \<notin> set [''sent'', ''delivered'', ''read''] then
            (s, Status 400 ''Valid status is required (sent, delivered, read)'')
          else if 0 \<in> faults then (s, Status 500 ''Failed to update message status'')
          else (setStatus s messageId st now, Status 200 ''Message status updated successfully''))"

subsection \<open>The event loop\<close>

text \<open>
  One event at a time, each handler run to its end before the next (the model does not
  interleave two handlers at their store calls). An event comes with the clock reading
  and the set of failing store calls of its run; a socket event is delivered only to a
  connection that exists. The requests of the HTTP chat API are events too; their
  responses go to the HTTP client and are not socket emits.
\<close>

datatype event =
    Connect nat
  | JoinProjectChat nat nat nat jsstring
  | SendMessage nat nat nat jsstring "jsstring option" "nat option" "nat option"
  | Typing nat nat nat jsstring
  | StopTyping nat nat nat
  | EditMessage nat nat nat "jsstring option"
  | DeleteMessage nat nat nat
  | Disconnect nat
  | TimeoutFires nat
  | HttpSendMessage "nat option" "nat option" "jsstring option" "jsstring option"
      "nat option" "nat option"
  | HttpEditMessage nat "nat option" "jsstring option"
  | HttpDeleteMessage nat "nat option"
  | HttpUpdateMessageStatus nat "string option"

fun socketOf :: "event \<Rightarrow> nat option" where
  "socketOf (Connect sid) = None"
| "socketOf (JoinProjectChat sid p u n) = Some sid"
| "socketOf (SendMessage sid p u n c r ru) = Some sid"
| "socketOf (Typing sid p u n) = Some sid"
| "socketOf (StopTyping sid p u) = Some sid"
| "socketOf (EditMessage sid i u c) = Some sid"
| "socketOf (DeleteMessage sid i u) = Some sid"
| "socketOf (Disconnect sid) = Some sid"
| "socketOf (TimeoutFires t) = None"
| "socketOf (HttpSendMessage p u n c r ru) = None"
| "socketOf (HttpEditMessage i u c) = None"
| "socketOf (HttpDeleteMessage i u) = None"
| "socketOf (HttpUpdateMessageStatus i st) = None"

fun handle :: "event \<Rightarrow> int \<Rightarrow> nat set \<Rightarrow> state \<Rightarrow> state \<times> emit list" where
  "handle (Connect sid) now faults s =
     (if map_of (sockets s) sid = None
      then (s\<lparr>sockets := sockets s @ [(sid, newSocket)]\<rparr>, [])
      else (s, []))"
| "handle (JoinProjectChat sid p u n) now faults s = join_project_chat sid p u n now faults s"
| "handle (SendMessage sid p u n c r ru) now faults s = send_message sid p u n c r ru now faults s"
| "handle (Typing sid p u n) now faults s = typing sid p u n s"
| "handle (StopTyping sid p u) now faults s = stop_typing sid p u s"
| "handle (EditMessage sid i u c) now faults s = edit_message sid i u c now faults s"
| "handle (DeleteMessage sid i u) now faults s = delete_message sid i u now faults s"
| "handle (Disconnect sid) now faults s = disconnect sid now s"
| "handle (TimeoutFires t) now faults s = timeout_fires t s"
| "handle (HttpSendMessage p u n c r ru) now faults s =
     (fst (sendMessage p u n c r ru now faults s), [])"
| "handle (HttpEditMessage i u c) now faults s = (fst (editMessage i u c now faults s), [])"
| "handle (HttpDeleteMessage i u) now faults s = (fst (deleteMessage i u now faults s), [])"
| "handle (HttpUpdateMessageStatus i st) now faults s =
     (fst (updateMessageStatus i st now faults s), [])"

definition step :: "state \<Rightarrow> event \<times> int \<times> nat set \<Rightarrow> state" where
  "step s x =
     (case x of (e, now, faults) \<Rightarrow>
        (case socketOf e of
           Some sid \<Rightarrow> if map_of (sockets s) sid = None then s else fst (handle e now faults s)
         | None \<Rightarrow> fst (handle e now faults s)))"

definition run :: "state \<Rightarrow> (event \<times> int \<times> nat set) list \<Rightarrow> state" where
  "run s xs = foldl step s xs"

subsection \<open>Example states\<close>

text \<open>
  A small database for the concrete runs below: project 7 with user 1 approved and
  user 2 pending, an approved row of user 3 for a project 9 that has no Projects row,
  message 42 (live) and message 43 (soft-deleted), both sent by user 1, and two
  connections that have not joined any room.
\<close>

definition exMessage :: "nat \<Rightarrow> nat \<Rightarrow> nat \<Rightarrow> chatMessage" where
  "exMessage i sender deleted =
     \<lparr>cm_id = i, cm_projectId = 7, cm_senderId = sender, cm_senderName = [65],
      cm_messageContent = [104, 105], cm_replyToMessageId = None, cm_replyToUserId = None,
      cm_replyToUserName = None, cm_replyToMessageContent = None,
      cm_messageStatus = ''sent'', cm_isDeleted = deleted, cm_editedAt = None,
      cm_createdAt = 100, cm_updatedAt = 100\<rparr>"

definition exState :: state where
  "exState =
     \<lparr>userMessageRateLimit = [], typingUsers = [], timeouts = [], nextTimeout = 0,
      sockets = [(1, newSocket), (2, newSocket)],
      Projects = [\<lparr>p_id = 7, p_authorId = 1\<rparr>],
      ProjectMembers =
        [\<lparr>pm_projectId = 7, pm_userId = 1, pm_invitationStatus = ''approved''\<rparr>,
         \<lparr>pm_projectId = 7, pm_userId = 2, pm_invitationStatus = ''pending''\<rparr>,
         \<lparr>pm_projectId = 9, pm_userId = 3, pm_invitationStatus = ''approved''\<rparr>],
      ChatMessages = [exMessage 42 1 0, exMessage 43 1 1],
      ChatMessages_seq = 43\<rparr>"

text \<open>Connection 1 after it joined project 7 as user 1 and sent one typing signal.\<close>

definition exJoined :: state where
  "exJoined = fst (typing 1 7 1 [65] (fst (join_project_chat 1 7 1 [65] 0 {} exState)))"

subsection \<open>Predicates on states\<close>

text \<open>Message \<open>i\<close> is in the table, and every row with this id carries the soft-delete flag.\<close>

definition softDeleted :: "nat \<Rightarrow> state \<Rightarrow> bool" where
  "softDeleted i s \<longleftrightarrow>
     list_ex (\<lambda>r. cm_id r = i) (ChatMessages s)
     \<and> list_all (\<lambda>r. cm_id r = i \<longrightarrow> cm_isDeleted r \<noteq> 0) (ChatMessages s)"

text \<open>
  The typing map and the pending timeouts, read per \<open>(projectId, userId)\<close>: the handle
  the typing map holds for the pair, the handles of all entries the map holds for it,
  and the pending timeouts whose callback will clear it.
\<close>

definition typingEntry :: "state \<Rightarrow> nat \<Rightarrow> nat \<Rightarrow> nat option" where
  "typingEntry s p u =
     (case map_of (typingUsers s) p of None \<Rightarrow> None | Some pt \<Rightarrow> map_of pt u)"

definition typingEntries :: "state \<Rightarrow> nat \<Rightarrow> nat \<Rightarrow> nat list" where
  "typingEntries s p u =
     concat (map (\<lambda>(p', pt). if p' = p
                    then concat (map (\<lambda>(u', t). if u' = u then [t] else []) pt)
                    else [])
                 (typingUsers s))"

definition liveTimers :: "state \<Rightarrow> nat \<Rightarrow> nat \<Rightarrow> nat list" where
  "liveTimers s p u = map fst (filter (\<lambda>(t, b). b = (p, u)) (timeouts s))"

text \<open>
  The invariant of the typing state: the keys of the maps and of the timeout table are
  distinct, every pending handle was issued before, and a handle is the entry of a pair
  exactly when it is pending for that pair.
\<close>

definition presence_inv :: "state \<Rightarrow> bool" where
  "presence_inv s \<longleftrightarrow>
     distinct (map fst (typingUsers s))
     \<and> (\<forall>p pt. map_of (typingUsers s) p = Some pt \<longrightarrow> distinct (map fst pt))
     \<and> distinct (map fst (timeouts s))
     \<and> (\<forall>t\<in>set (map fst (timeouts s)). t < nextTimeout s)
     \<and> (\<forall>p u t. typingEntry s p u = Some t \<longleftrightarrow> map_of (timeouts s) t = Some (p, u))"

text \<open>
  The throttling answer of \<open>send-message\<close>, and the record of one sender's send-message
  events in a run of the event loop: for each such event that is delivered, in order, the
  clock reading and whether the handler did not answer it with the throttling error.
\<close>

definition throttled :: "nat \<Rightarrow> emit list \<Rightarrow> bool" where
  "throttled sid out \<longleftrightarrow>
     out = [(ToSocket sid,
             Error ''You are sending messages too quickly. Please wait a moment.'')]"

fun sendOutcomes :: "nat \<Rightarrow> state \<Rightarrow> (event \<times> int \<times> nat set) list \<Rightarrow> (int \<times> bool) list" where
  "sendOutcomes senderId s [] = []"
| "sendOutcomes senderId s ((e, now, faults) # xs) =
     (case e of
        SendMessage sid p u n c r ru \<Rightarrow>
          if u = senderId \<and> map_of (sockets s) sid \<noteq> None
          then [(now, \<not> throttled sid (snd (handle e now faults s)))]
          else []
      | _ \<Rightarrow> [])
     @ sendOutcomes senderId (step s (e, now, faults)) xs"

section \<open>Properties\<close>

subsection \<open>Rate limiter\<close>

lemma rateLimit_refines:
  "(decision (fst (rateLimit m s now)), map_of (snd (rateLimit m s now)))
     = admit_spec (map_of m) s now"
  by (cases "map_of m s")
     (auto simp: rateLimit_def admit_spec_def decision_def RATE_LIMIT_WINDOW_def
        MAX_MESSAGES_PER_WINDOW_def update_conv')

lemma rateLimitAll_window:
  "map_of m s = Some d \<Longrightarrow> \<forall>t\<in>set ts. t - timestamp d < RATE_LIMIT_WINDOW \<Longrightarrow>
   fst (rateLimitAll m s ts) = map (\<lambda>i. count d + i < MAX_MESSAGES_PER_WINDOW) [0..<length ts]"
proof (induction ts arbitrary: m d)
  case Nil
  then show ?case by simp
next
  case (Cons t ts)
  show ?case
  proof (cases "count d < MAX_MESSAGES_PER_WINDOW")
    case True
    let ?d' = "d\<lparr>count := count d + 1\<rparr>"
    from True Cons.prems have rl: "rateLimit m s t = (True, AList.update s ?d' m)"
      by (simp add: rateLimit_def)
    have "map_of (AList.update s ?d' m) s = Some ?d'" by (simp add: update_conv')
    moreover have "\<forall>t\<in>set ts. t - timestamp ?d' < RATE_LIMIT_WINDOW" using Cons.prems by simp
    ultimately have "fst (rateLimitAll (AList.update s ?d' m) s ts)
        = map (\<lambda>i. count ?d' + i < MAX_MESSAGES_PER_WINDOW) [0..<length ts]"
      by (rule Cons.IH)
    then show ?thesis using rl True
      by (simp add: split_def upt_rec[of 0] map_Suc_upt[symmetric] del: upt_Suc)
  next
    case False
    from False Cons.prems have rl: "rateLimit m s t = (False, m)"
      by (simp add: rateLimit_def)
    have "fst (rateLimitAll m s ts) = map (\<lambda>i. count d + i < MAX_MESSAGES_PER_WINDOW) [0..<length ts]"
      using Cons.prems by (intro Cons.IH) auto
    then show ?thesis using rl False
      by (simp add: split_def upt_rec[of 0] map_Suc_upt[symmetric] del: upt_Suc)
  qed
qed

lemma rateLimit_opens_window:
  "map_of m s = None \<or> (\<exists>d. map_of m s = Some d \<and> RATE_LIMIT_WINDOW \<le> now - timestamp d) \<Longrightarrow>
   rateLimit m s now = (True, AList.update s \<lparr>count = 1, timestamp = now\<rparr> m)"
  by (auto simp: rateLimit_def)

lemma rateLimit_full_capacity:
  assumes "map_of m s = None \<or> (\<exists>d. map_of m s = Some d \<and> RATE_LIMIT_WINDOW \<le> now - timestamp d)"
    and "\<forall>t\<in>set ts. t - now < RATE_LIMIT_WINDOW"
  shows "fst (rateLimitAll m s (now # ts)) = map (\<lambda>i. i < MAX_MESSAGES_PER_WINDOW) [0..<Suc (length ts)]"
proof -
  let ?d = "\<lparr>count = 1, timestamp = now\<rparr>"
  have "fst (rateLimitAll (AList.update s ?d m) s ts) = map (\<lambda>i. count ?d + i < MAX_MESSAGES_PER_WINDOW) [0..<length ts]"
    using assms(2) by (intro rateLimitAll_window) (auto simp: update_conv')
  then show ?thesis using rateLimit_opens_window[OF assms(1)]
    by (simp add: split_def upt_rec[of 0] map_Suc_upt[symmetric] MAX_MESSAGES_PER_WINDOW_def del: upt_Suc)
qed

subsection \<open>Content validation\<close>

lemma trim_Nil_iff: "trim s = [] \<longleftrightarrow> (\<forall>c\<in>set s. isWhiteSpace c)"
proof
  assume "trim s = []"
  then have "\<forall>c\<in>set (dropWhile isWhiteSpace s). isWhiteSpace c"
    by (simp add: trim_def)
  then have "dropWhile isWhiteSpace s = []"
    by (metis hd_dropWhile hd_in_set)
  then show "\<forall>c\<in>set s. isWhiteSpace c" by simp
next
  assume "\<forall>c\<in>set s. isWhiteSpace c"
  then have d: "dropWhile isWhiteSpace s = []" by simp
  show "trim s = []" unfolding trim_def d by simp
qed

lemma emptyContent_iff:
  "emptyContent c \<longleftrightarrow> c = None \<or> (\<exists>str. c = Some str \<and> (\<forall>ch\<in>set str. isWhiteSpace ch))"
  by (cases c) (auto simp: emptyContent_def trim_Nil_iff)

lemma rateLimit_rejected_unchanged:
  "\<not> fst (rateLimit m s now) \<Longrightarrow> snd (rateLimit m s now) = m"
  by (auto simp: rateLimit_def split: option.splits if_splits)

lemma send_message_blank:
  assumes "emptyContent c"
  shows "send_message sid p u n c r ru now faults s =
     (s\<lparr>userMessageRateLimit := snd (rateLimit (userMessageRateLimit s) u now)\<rparr>,
      [(ToSocket sid,
        Error (if fst (rateLimit (userMessageRateLimit s) u now)
               then ''Message cannot be empty''
               else ''You are sending messages too quickly. Please wait a moment.''))])"
  using assms by (simp add: send_message_def split_def)

text \<open>
  Claim C4, as amended. A \<open>send-message\<close> whose content is missing, empty or made of
  white space only is answered with exactly one error to the sender and changes no
  table: the error is the validation error when the rate limiter admits the send, and
  the throttling error when it does not (the rate limiter runs first, and an admitted
  blank send still counts against the window).
\<close>

theorem C4_blank_content_never_stored:
  "c = None \<or> (\<exists>str. c = Some str \<and> (\<forall>ch\<in>set str. isWhiteSpace ch)) \<Longrightarrow>
   send_message sid p u n c r ru now faults s =
     (s\<lparr>userMessageRateLimit := snd (rateLimit (userMessageRateLimit s) u now)\<rparr>,
      [(ToSocket sid,
        Error (if fst (rateLimit (userMessageRateLimit s) u now)
               then ''Message cannot be empty''
               else ''You are sending messages too quickly. Please wait a moment.''))])
   \<and> ChatMessages (fst (send_message sid p u n c r ru now faults s)) = ChatMessages s
   \<and> ChatMessages_seq (fst (send_message sid p u n c r ru now faults s)) = ChatMessages_seq s"
proof -
  assume "c = None \<or> (\<exists>str. c = Some str \<and> (\<forall>ch\<in>set str. isWhiteSpace ch))"
  then have "emptyContent c" by (simp add: emptyContent_iff)
  then show ?thesis by (simp add: send_message_blank)
qed

theorem C4_witness:
  "list_all isWhiteSpace [32, 32, 32]
   \<and> send_message 1 7 1 [65] (Some [32, 32, 32]) None None 0 {} exState =
       (exState\<lparr>userMessageRateLimit := [(1, \<lparr>count = 1, timestamp = 0\<rparr>)]\<rparr>,
        [(ToSocket 1, Error ''Message cannot be empty'')])"
  using C4_blank_content_never_stored [of "Some [32, 32, 32]" 1 7 1 "[65]" None None 0 "{}" exState]
  by (simp add: isWhiteSpace_def rateLimit_def exState_def)

text \<open>
  The claim as stated fails for a sender whose window is full: the blank send gets the
  throttling error, not the validation error.
\<close>

theorem C4_counterexample:
  "send_message 1 7 1 [65] (Some [32, 32, 32]) None None 1000 {}
       (exState\<lparr>userMessageRateLimit := [(1, \<lparr>count = 5, timestamp = 0\<rparr>)]\<rparr>)
     = (exState\<lparr>userMessageRateLimit := [(1, \<lparr>count = 5, timestamp = 0\<rparr>)]\<rparr>,
        [(ToSocket 1, Error ''You are sending messages too quickly. Please wait a moment.'')])
   \<and> snd (send_message 1 7 1 [65] (Some [32, 32, 32]) None None 1000 {}
            (exState\<lparr>userMessageRateLimit := [(1, \<lparr>count = 5, timestamp = 0\<rparr>)]\<rparr>))
       \<noteq> [(ToSocket 1, Error ''Message cannot be empty'')]"
  by (simp add: send_message_def rateLimit_def RATE_LIMIT_WINDOW_def MAX_MESSAGES_PER_WINDOW_def
        exState_def)

subsection \<open>Editing\<close>

lemma getLiveMessage_None_iff:
  "getLiveMessage s i = None \<longleftrightarrow> \<not> (\<exists>m\<in>set (ChatMessages s). cm_id m = i \<and> cm_isDeleted m = 0)"
  by (auto simp: getLiveMessage_def find_None_iff)

lemma getLiveMessage_SomeD:
  "getLiveMessage s i = Some m \<Longrightarrow> m \<in> set (ChatMessages s) \<and> cm_id m = i \<and> cm_isDeleted m = 0"
  by (auto simp: getLiveMessage_def find_Some_iff)

text \<open>
  Claim C5, as amended. An edit whose new content is blank is rejected with the
  validation error, whoever sends it (the handler validates before it looks the message
  up). Otherwise, the lookup succeeding: an edit by someone other than the stored
  sender is rejected with the ownership error, and an edit of an id with no live
  (non-deleted) row with "Message not found". Each rejection returns the state as it
  was, so content, editedAt and updatedAt are unchanged.
\<close>

theorem C5_edit_rejections_leave_store:
  "(emptyContent c \<longrightarrow>
      edit_message sid i u c now faults s = (s, [(ToSocket sid, Error ''Message cannot be empty'')]))
   \<and> (\<not> emptyContent c \<and> 0 \<notin> faults \<and> getLiveMessage s i = Some m \<and> cm_senderId m \<noteq> u \<longrightarrow>
      edit_message sid i u c now faults s
        = (s, [(ToSocket sid, Error ''You can only edit your own messages'')]))
   \<and> (\<not> emptyContent c \<and> 0 \<notin> faults
        \<and> \<not> (\<exists>m\<in>set (ChatMessages s). cm_id m = i \<and> cm_isDeleted m = 0) \<longrightarrow>
      edit_message sid i u c now faults s = (s, [(ToSocket sid, Error ''Message not found'')]))"
proof (intro conjI impI)
  assume "emptyContent c"
  then show "edit_message sid i u c now faults s
      = (s, [(ToSocket sid, Error ''Message cannot be empty'')])"
    by (simp add: edit_message_def)
next
  assume "\<not> emptyContent c \<and> 0 \<notin> faults \<and> getLiveMessage s i = Some m \<and> cm_senderId m \<noteq> u"
  then show "edit_message sid i u c now faults s
      = (s, [(ToSocket sid, Error ''You can only edit your own messages'')])"
    by (simp add: edit_message_def)
next
  assume a: "\<not> emptyContent c \<and> 0 \<notin> faults
        \<and> \<not> (\<exists>m\<in>set (ChatMessages s). cm_id m = i \<and> cm_isDeleted m = 0)"
  then have "getLiveMessage s i = None"
    using getLiveMessage_None_iff by blast
  with a show "edit_message sid i u c now faults s
      = (s, [(ToSocket sid, Error ''Message not found'')])"
    by (simp add: edit_message_def)
qed

theorem C5_witness:
  "\<not> emptyContent (Some [111, 107]) \<and> 0 \<notin> ({}::nat set)
   \<and> getLiveMessage exState 42 = Some (exMessage 42 1 0) \<and> cm_senderId (exMessage 42 1 0) \<noteq> 2
   \<and> edit_message 2 42 2 (Some [111, 107]) 5000 {} exState
       = (exState, [(ToSocket 2, Error ''You can only edit your own messages'')])
   \<and> edit_message 2 43 1 (Some [111, 107]) 5000 {} exState
       = (exState, [(ToSocket 2, Error ''Message not found'')])
   \<and> edit_message 2 42 1 None 5000 {} exState
       = (exState, [(ToSocket 2, Error ''Message cannot be empty'')])"
  using C5_edit_rejections_leave_store [of "Some [111, 107]" 2 42 2 5000 "{}" exState "exMessage 42 1 0"]
    C5_edit_rejections_leave_store [of "Some [111, 107]" 2 43 1 5000 "{}" exState]
    C5_edit_rejections_leave_store [of None 2 42 1 5000 "{}" exState]
  by (simp add: emptyContent_def trim_def isWhiteSpace_def getLiveMessage_def exState_def
        exMessage_def)

text \<open>
  The claim as stated fails when user 2 edits message 42 of user 1 with a blank
  content: the answer is the validation error, not the ownership error.
\<close>

theorem C5_counterexample:
  "getLiveMessage exState 42 = Some (exMessage 42 1 0) \<and> cm_senderId (exMessage 42 1 0) \<noteq> 2
   \<and> edit_message 2 42 2 (Some [32]) 5000 {} exState
       = (exState, [(ToSocket 2, Error ''Message cannot be empty'')])
   \<and> snd (edit_message 2 42 2 (Some [32]) 5000 {} exState)
       \<noteq> [(ToSocket 2, Error ''You can only edit your own messages'')]"
  by (simp add: edit_message_def emptyContent_def trim_def isWhiteSpace_def getLiveMessage_def
        exState_def exMessage_def)

subsection \<open>Typing notifications\<close>

lemma clearTypingIndicator_out:
  "snd (clearTypingIndicator s p u) =
     (case map_of (typingUsers s) p of
        None \<Rightarrow> []
      | Some pt \<Rightarrow> (case map_of pt u of None \<Rightarrow> [] | Some t \<Rightarrow> [(ToRoom p, UserStoppedTyping u)]))"
  by (simp add: clearTypingIndicator_def Let_def split: option.splits)

lemma typing_out:
  "snd (typing sid p u n s)
     = snd (clearTypingIndicator s p u) @ [(ToRoomExcept p sid, UserTyping u n)]"
  by (simp add: typing_def split_def Let_def)

text \<open>
  Claim C6, as amended. Every typing signal emits \<open>user-typing\<close> to the room except the
  sender, after whatever the clearing of an old entry emitted; so does a repeated
  signal of a user who is already typing. The handler has no branch that skips the
  notification.
\<close>

theorem C6_typing_always_notifies:
  "snd (typing sid p u n s)
     = snd (clearTypingIndicator s p u) @ [(ToRoomExcept p sid, UserTyping u n)]
   \<and> last (snd (typing sid' p u n' (fst (typing sid p u n s)))) = (ToRoomExcept p sid', UserTyping u n')"
  by (simp add: typing_out)

theorem C6_witness:
  "snd (typing 1 7 1 [65] (fst (typing 1 7 1 [65] exState)))
     = [(ToRoom 7, UserStoppedTyping 1), (ToRoomExcept 7 1, UserTyping 1 [65])]"
  using C6_typing_always_notifies [of 1 7 1 "[65]" "fst (typing 1 7 1 [65] exState)"]
  by (simp add: clearTypingIndicator_out typing_def clearTypingIndicator_def setTimeout_def
        exState_def split_def Let_def)

text \<open>
  The claim as stated fails at the second of two signals: the user has an entry, and
  \<open>user-typing\<close> is emitted again.
\<close>

theorem C6_counterexample:
  "map_of (typingUsers (fst (typing 1 7 1 [65] exState))) 7 = Some [(1, 0)]
   \<and> (ToRoomExcept 7 1, UserTyping 1 [65])
       \<in> set (snd (typing 1 7 1 [65] (fst (typing 1 7 1 [65] exState))))"
  by (simp add: typing_def clearTypingIndicator_def setTimeout_def clearTimeout_def
        exState_def split_def Let_def)

text \<open>
  Claim C10. When the user already has an entry for the project, a typing signal emits
  \<open>user-stopped-typing\<close> to the whole room and then \<open>user-typing\<close> to the room except the
  sender; a sender that is in the room is among the recipients of the first and not of
  the second.
\<close>

theorem C10_refresh_emits_pair:
  "map_of (typingUsers s) p = Some pt \<Longrightarrow> map_of pt u = Some t \<Longrightarrow>
   snd (typing sid p u n s)
     = [(ToRoom p, UserStoppedTyping u), (ToRoomExcept p sid, UserTyping u n)]
   \<and> (map_of (sockets s) sid = Some c \<and> p \<in> set (rooms c) \<longrightarrow>
        sid \<in> set (recipients (sockets s) (ToRoom p))
        \<and> sid \<notin> set (recipients (sockets s) (ToRoomExcept p sid)))"
proof (intro conjI impI)
  assume "map_of (typingUsers s) p = Some pt" "map_of pt u = Some t"
  then show "snd (typing sid p u n s)
     = [(ToRoom p, UserStoppedTyping u), (ToRoomExcept p sid, UserTyping u n)]"
    by (simp add: typing_out clearTypingIndicator_out)
next
  assume "map_of (sockets s) sid = Some c \<and> p \<in> set (rooms c)"
  then have "(sid, c) \<in> set (sockets s)" "p \<in> set (rooms c)"
    by (auto dest: map_of_SomeD)
  then show "sid \<in> set (recipients (sockets s) (ToRoom p))"
    by (force simp: image_iff)
next
  show "sid \<notin> set (recipients (sockets s) (ToRoomExcept p sid))"
    by auto
qed


theorem C10_witness:
  "map_of (typingUsers exJoined) 7 = Some [(1, 0)] \<and> map_of [(1, 0::nat)] (1::nat) = Some 0
   \<and> map_of (sockets exJoined) 1
       = Some \<lparr>rooms = [7], sock_projectId = Some 7, sock_userId = Some 1,
               sock_userName = Some [65]\<rparr>
   \<and> snd (typing 1 7 1 [65] exJoined)
       = [(ToRoom 7, UserStoppedTyping 1), (ToRoomExcept 7 1, UserTyping 1 [65])]
   \<and> 1 \<in> set (recipients (sockets exJoined) (ToRoom 7))
   \<and> 1 \<notin> set (recipients (sockets exJoined) (ToRoomExcept 7 1))"
proof -
  have a: "map_of (typingUsers exJoined) 7 = Some [(1, 0)]"
    by (simp add: exJoined_def typing_def clearTypingIndicator_def setTimeout_def
        join_project_chat_def isProjectMember_def exState_def split_def Let_def)
  have b: "map_of [(1, 0::nat)] (1::nat) = Some 0" by simp
  have c: "map_of (sockets exJoined) 1
       = Some \<lparr>rooms = [7], sock_projectId = Some 7, sock_userId = Some 1,
               sock_userName = Some [65]\<rparr>"
    by (simp add: exJoined_def typing_def clearTypingIndicator_def setTimeout_def
        join_project_chat_def isProjectMember_def exState_def newSocket_def split_def Let_def)
  show ?thesis
    using C10_refresh_emits_pair [OF a b, of 1 "[65]"
        "\<lparr>rooms = [7], sock_projectId = Some 7, sock_userId = Some 1, sock_userName = Some [65]\<rparr>"]
      a c
    by simp
qed

subsection \<open>Accepted sends and the membership gate\<close>

lemma fold_max_ge: "(a::nat) \<le> fold max xs a \<and> (\<forall>x\<in>set xs. x \<le> fold max xs a)"
proof (induction xs arbitrary: a)
  case Nil
  then show ?case by simp
next
  case (Cons y ys)
  from Cons.IH[of "max y a"] show ?case by auto
qed

lemma lastID_fresh: "m \<in> set (ChatMessages s) \<Longrightarrow> cm_id m < lastID s"
  using fold_max_ge[of "ChatMessages_seq s" "map cm_id (ChatMessages s)"]
  by (auto simp: lastID_def less_Suc_eq_le)

lemma find_snoc_fresh:
  "\<forall>x\<in>set xs. \<not> P x \<Longrightarrow> P y \<Longrightarrow> find P (xs @ [y]) = Some y"
  by (induction xs) auto

lemma getMessage_insertMessage:
  "cm_id row = lastID s \<Longrightarrow> getMessage (insertMessage s row) (lastID s) = Some row"
proof -
  assume a: "cm_id row = lastID s"
  have "\<forall>m\<in>set (ChatMessages s). \<not> cm_id m = lastID s"
    by (auto dest: lastID_fresh)
  then have "find (\<lambda>m. cm_id m = lastID s) (ChatMessages s @ [row]) = Some row"
    using a by (rule find_snoc_fresh)
  then show ?thesis by (simp add: getMessage_def insertMessage_def)
qed

lemma lastID_rateLimit [simp]: "lastID (s\<lparr>userMessageRateLimit := m\<rparr>) = lastID s"
  by (simp add: lastID_def)

lemma isProjectMember_rateLimit [simp]:
  "isProjectMember (s\<lparr>userMessageRateLimit := m\<rparr>) = isProjectMember s"
  by (simp add: isProjectMember_def fun_eq_iff)

lemma getLiveMessage_rateLimit [simp]:
  "getLiveMessage (s\<lparr>userMessageRateLimit := m\<rparr>) = getLiveMessage s"
  by (simp add: getLiveMessage_def fun_eq_iff)

lemma newRow_rateLimit [simp]:
  "newRow (s\<lparr>userMessageRateLimit := m\<rparr>) = newRow s"
  by (simp add: newRow_def fun_eq_iff)

text \<open>The row a send stores, and the state after the INSERT.\<close>

lemma send_message_accepted:
  assumes "fst (rateLimit (userMessageRateLimit s) u now)" and "\<not> emptyContent c"
    and "isProjectMember s p u \<noteq> None" and "faults = {}"
    and "target = (case r of Some i \<Rightarrow> if i \<noteq> 0 then getLiveMessage s i else None | None \<Rightarrow> None)"
    and "row = newRow s now p u n (case c of Some x \<Rightarrow> x | None \<Rightarrow> []) (orNull r) (orNull ru)
                 (map_option cm_senderName target) (map_option cm_messageContent target)"
    and "s2 = insertMessage (s\<lparr>userMessageRateLimit := snd (rateLimit (userMessageRateLimit s) u now)\<rparr>) row"
  shows "send_message sid p u n c r ru now faults s
           = (fst (clearTypingIndicator s2 p u),
              (ToRoom p, NewMessage (Some row)) # snd (clearTypingIndicator s2 p u))"
proof -
  let ?s1 = "s\<lparr>userMessageRateLimit := snd (rateLimit (userMessageRateLimit s) u now)\<rparr>"
  have id: "cm_id row = lastID ?s1" using assms(6) by (simp add: newRow_def)
  have "getMessage (insertMessage ?s1 row) (lastID ?s1) = Some row"
    using id by (rule getMessage_insertMessage)
  then have g: "getMessage s2 (lastID s) = Some row" using assms(7) by simp
  show ?thesis
    using assms(1-4) g
    unfolding send_message_def
    by (simp add: split_def Let_def assms(5,6,7) cong: option.case_cong if_cong)
qed


lemma clearTypingIndicator_tables [simp]:
  "ChatMessages (fst (clearTypingIndicator s p u)) = ChatMessages s"
  "ChatMessages_seq (fst (clearTypingIndicator s p u)) = ChatMessages_seq s"
  "Projects (fst (clearTypingIndicator s p u)) = Projects s"
  "ProjectMembers (fst (clearTypingIndicator s p u)) = ProjectMembers s"
  "sockets (fst (clearTypingIndicator s p u)) = sockets s"
  "userMessageRateLimit (fst (clearTypingIndicator s p u)) = userMessageRateLimit s"
  by (simp_all add: clearTypingIndicator_def clearTimeout_def Let_def split: option.splits)

lemma clearTypingIndicator_no_error: "\<not> list_ex isError (snd (clearTypingIndicator s p u))"
  by (simp add: clearTypingIndicator_out split: option.splits)

lemma isProjectMember_iff:
  "isProjectMember s p u \<noteq> None \<longleftrightarrow>
     (\<exists>pm\<in>set (ProjectMembers s). pm_projectId pm = p \<and> pm_userId pm = u
         \<and> pm_invitationStatus pm = ''approved'')
     \<and> (\<exists>pr\<in>set (Projects s). p_id pr = p)"
  by (auto simp: isProjectMember_def find_None_iff list_ex_iff)

lemma recipients_room_member:
  "map_of ss sid = Some c \<Longrightarrow> p \<in> set (rooms c) \<Longrightarrow> sid \<in> set (recipients ss (ToRoom p))"
  by (force dest: map_of_SomeD simp: image_iff)

lemma join_denied:
  "isProjectMember s p u = None \<Longrightarrow>
   \<exists>msg. join_project_chat sid p u n now faults s = (s, [(ToSocket sid, Error msg)])"
  by (simp add: join_project_chat_def)

lemma send_denied:
  "isProjectMember s p u = None \<Longrightarrow>
   \<exists>msg. send_message sid p u n c r ru now faults s
     = (s\<lparr>userMessageRateLimit := snd (rateLimit (userMessageRateLimit s) u now)\<rparr>,
        [(ToSocket sid, Error msg)])"
  by (cases "fst (rateLimit (userMessageRateLimit s) u now)")
     (simp_all add: send_message_def split_def Let_def)

lemma join_admitted:
  assumes "isProjectMember s p u \<noteq> None" and "0 \<notin> faults"
  shows "join_project_chat sid p u n now faults s
     = (s\<lparr>sockets := AList.map_entry sid
             (\<lambda>c. c\<lparr>rooms := List.insert p (rooms c), sock_projectId := Some p,
                    sock_userId := Some u, sock_userName := Some n\<rparr>) (sockets s)\<rparr>,
        [(ToRoomExcept p sid, UserJoined u n now)])"
  using assms by (simp add: join_project_chat_def)

lemma join_in_room:
  assumes "isProjectMember s p u \<noteq> None" and "0 \<notin> faults" and "map_of (sockets s) sid \<noteq> None"
  shows "sid \<in> set (recipients (sockets (fst (join_project_chat sid p u n now faults s))) (ToRoom p))"
proof -
  from assms(3) obtain c where c: "map_of (sockets s) sid = Some c" by auto
  let ?c' = "c\<lparr>rooms := List.insert p (rooms c), sock_projectId := Some p,
                sock_userId := Some u, sock_userName := Some n\<rparr>"
  have "map_of (sockets (fst (join_project_chat sid p u n now faults s))) sid = Some ?c'"
    using c by (simp add: join_admitted[OF assms(1,2)] map_of_map_entry)
  moreover have "p \<in> set (rooms ?c')" by simp
  ultimately show ?thesis by (rule recipients_room_member)
qed

lemma send_stored:
  assumes "fst (rateLimit (userMessageRateLimit s) u now)" and "\<not> emptyContent c"
    and "isProjectMember s p u \<noteq> None" and "faults = {}"
  shows "\<exists>row. ChatMessages (fst (send_message sid p u n c r ru now faults s)) = ChatMessages s @ [row]
           \<and> hd (snd (send_message sid p u n c r ru now faults s)) = (ToRoom p, NewMessage (Some row))
           \<and> \<not> list_ex isError (snd (send_message sid p u n c r ru now faults s))
           \<and> cm_projectId row = p \<and> cm_senderId row = u \<and> c = Some (cm_messageContent row)
           \<and> cm_isDeleted row = 0
           \<and> cm_replyToUserName row = map_option cm_senderName
                (case r of Some i \<Rightarrow> if i \<noteq> 0 then getLiveMessage s i else None | None \<Rightarrow> None)
           \<and> cm_replyToMessageContent row = map_option cm_messageContent
                (case r of Some i \<Rightarrow> if i \<noteq> 0 then getLiveMessage s i else None | None \<Rightarrow> None)"
proof -
  from assms(2) obtain x where x: "c = Some x" by (cases c) (auto simp: emptyContent_def)
  show ?thesis
    unfolding send_message_accepted[OF assms refl refl refl]
    using x by (simp add: insertMessage_def newRow_def clearTypingIndicator_no_error)
qed

text \<open>
  Claim C2, as amended. \<open>isProjectMember\<close> finds a row exactly when an approved
  ProjectMembers row exists for the pair and the project has a Projects row (the
  query joins the two tables). When it finds none, a join and a send are each answered
  with one error to the sender: the join leaves the state as it was, the send changes
  nothing but the rate-limit map. When it finds one and the store calls succeed, a join
  by a connection puts it in the room and notifies the others, and a send that the rate
  limiter admits and whose content is not blank is stored and broadcast to the room.
\<close>

theorem C2_membership_gate:
  "(isProjectMember s p u \<noteq> None \<longleftrightarrow>
      (\<exists>pm\<in>set (ProjectMembers s). pm_projectId pm = p \<and> pm_userId pm = u
          \<and> pm_invitationStatus pm = ''approved'')
      \<and> (\<exists>pr\<in>set (Projects s). p_id pr = p))
   \<and> (isProjectMember s p u = None \<longrightarrow>
        (\<exists>msg. join_project_chat sid p u n now faults s = (s, [(ToSocket sid, Error msg)]))
        \<and> (\<exists>msg. send_message sid p u n c r ru now faults s
              = (s\<lparr>userMessageRateLimit := snd (rateLimit (userMessageRateLimit s) u now)\<rparr>,
                 [(ToSocket sid, Error msg)])))
   \<and> (isProjectMember s p u \<noteq> None \<and> faults = {} \<and> map_of (sockets s) sid \<noteq> None \<longrightarrow>
        snd (join_project_chat sid p u n now faults s) = [(ToRoomExcept p sid, UserJoined u n now)]
        \<and> sid \<in> set (recipients (sockets (fst (join_project_chat sid p u n now faults s))) (ToRoom p)))
   \<and> (isProjectMember s p u \<noteq> None \<and> faults = {}
        \<and> fst (rateLimit (userMessageRateLimit s) u now) \<and> \<not> emptyContent c \<longrightarrow>
        (\<exists>row. ChatMessages (fst (send_message sid p u n c r ru now faults s)) = ChatMessages s @ [row]
           \<and> hd (snd (send_message sid p u n c r ru now faults s)) = (ToRoom p, NewMessage (Some row))
           \<and> \<not> list_ex isError (snd (send_message sid p u n c r ru now faults s))
           \<and> cm_projectId row = p \<and> cm_senderId row = u \<and> c = Some (cm_messageContent row)))"
proof (intro conjI impI)
  show "isProjectMember s p u \<noteq> None \<longleftrightarrow>
      (\<exists>pm\<in>set (ProjectMembers s). pm_projectId pm = p \<and> pm_userId pm = u
          \<and> pm_invitationStatus pm = ''approved'')
      \<and> (\<exists>pr\<in>set (Projects s). p_id pr = p)"
    by (rule isProjectMember_iff)
next
  assume "isProjectMember s p u = None"
  then show "\<exists>msg. join_project_chat sid p u n now faults s = (s, [(ToSocket sid, Error msg)])"
    by (rule join_denied)
next
  assume "isProjectMember s p u = None"
  then show "\<exists>msg. send_message sid p u n c r ru now faults s
              = (s\<lparr>userMessageRateLimit := snd (rateLimit (userMessageRateLimit s) u now)\<rparr>,
                 [(ToSocket sid, Error msg)])"
    by (rule send_denied)
next
  assume "isProjectMember s p u \<noteq> None \<and> faults = {} \<and> map_of (sockets s) sid \<noteq> None"
  then show "snd (join_project_chat sid p u n now faults s) = [(ToRoomExcept p sid, UserJoined u n now)]"
    by (simp add: join_admitted)
next
  assume "isProjectMember s p u \<noteq> None \<and> faults = {} \<and> map_of (sockets s) sid \<noteq> None"
  then show "sid \<in> set (recipients (sockets (fst (join_project_chat sid p u n now faults s))) (ToRoom p))"
    by (intro join_in_room) auto
next
  assume a: "isProjectMember s p u \<noteq> None \<and> faults = {}
        \<and> fst (rateLimit (userMessageRateLimit s) u now) \<and> \<not> emptyContent c"
  from send_stored[of s u now c p faults sid n r ru] a
  show "\<exists>row. ChatMessages (fst (send_message sid p u n c r ru now faults s)) = ChatMessages s @ [row]
           \<and> hd (snd (send_message sid p u n c r ru now faults s)) = (ToRoom p, NewMessage (Some row))
           \<and> \<not> list_ex isError (snd (send_message sid p u n c r ru now faults s))
           \<and> cm_projectId row = p \<and> cm_senderId row = u \<and> c = Some (cm_messageContent row)"
    by blast
qed


theorem C2_witness:
  "isProjectMember exState 7 1 \<noteq> None \<and> ({}::nat set) = {} \<and> map_of (sockets exState) 1 \<noteq> None
   \<and> fst (rateLimit (userMessageRateLimit exState) 1 100000) \<and> \<not> emptyContent (Some [104, 105])
   \<and> snd (join_project_chat 1 7 1 [65] 100000 {} exState) = [(ToRoomExcept 7 1, UserJoined 1 [65] 100000)]
   \<and> 1 \<in> set (recipients (sockets (fst (join_project_chat 1 7 1 [65] 100000 {} exState))) (ToRoom 7))
   \<and> ChatMessages (fst (send_message 1 7 1 [65] (Some [104, 105]) None None 100000 {} exState))
       = ChatMessages exState @ [exMessage 44 1 0]
   \<and> snd (send_message 1 7 1 [65] (Some [104, 105]) None None 100000 {} exState)
       = [(ToRoom 7, NewMessage (Some (exMessage 44 1 0)))]
   \<and> isProjectMember exState 7 2 = None
   \<and> join_project_chat 2 7 2 [66] 100000 {} exState
       = (exState, [(ToSocket 2, Error ''You must be a project member to join chat'')])
   \<and> send_message 2 7 2 [66] (Some [104, 105]) None None 100000 {} exState
       = (exState\<lparr>userMessageRateLimit := [(2, \<lparr>count = 1, timestamp = 100000\<rparr>)]\<rparr>,
          [(ToSocket 2, Error ''You must be a project member to send messages'')])"
  using C2_membership_gate [of exState 7 1 1 "[65]" 100000 "{}" "Some [104, 105]" None None]
    C2_membership_gate [of exState 7 2 2 "[66]" 100000 "{}" "Some [104, 105]" None None]
  by (simp add: send_message_def join_project_chat_def rateLimit_def emptyContent_def trim_def
        isWhiteSpace_def isProjectMember_def getLiveMessage_def getMessage_def newRow_def
        lastID_def insertMessage_def clearTypingIndicator_def orNull_def truthy_def
        CURRENT_TIMESTAMP_def exState_def exMessage_def newSocket_def split_def Let_def)

text \<open>
  The claim as stated fails twice on the example database: the blank send of the
  approved member 1 of project 7 is rejected, and user 3, who has an approved row for
  project 9 but whose project has no Projects row, is denied the join.
\<close>

theorem C2_counterexample:
  "isProjectMember exState 7 1 \<noteq> None
   \<and> send_message 1 7 1 [65] (Some [32, 32, 32]) None None 100000 {} exState
       = (exState\<lparr>userMessageRateLimit := [(1, \<lparr>count = 1, timestamp = 100000\<rparr>)]\<rparr>,
          [(ToSocket 1, Error ''Message cannot be empty'')])
   \<and> list_ex (\<lambda>pm. pm_projectId pm = 9 \<and> pm_userId pm = 3 \<and> pm_invitationStatus pm = ''approved'')
        (ProjectMembers exState)
   \<and> isProjectMember exState 9 3 = None
   \<and> join_project_chat 2 9 3 [67] 100000 {} exState
       = (exState, [(ToSocket 2, Error ''You must be a project member to join chat'')])"
  by (simp add: send_message_def join_project_chat_def rateLimit_def emptyContent_def trim_def
        isWhiteSpace_def isProjectMember_def exState_def split_def Let_def)

text \<open>
  Claim C8. Message ids are never 0 (they come from AUTOINCREMENT). For a send that
  carries a \<open>replyToMessageId\<close>, passes the rate limiter, the content check and the
  membership check, and whose store calls succeed: the message is stored and broadcast
  and no error is emitted; when no live (non-deleted) row has the replied-to id, the
  two snapshot columns of the stored row are null, and otherwise they hold that row's
  sender name and content.
\<close>

theorem C8_reply_target_tolerated:
  assumes "\<forall>m\<in>set (ChatMessages s). cm_id m \<noteq> 0"
    and "fst (rateLimit (userMessageRateLimit s) u now)" and "\<not> emptyContent c"
    and "isProjectMember s p u \<noteq> None" and "faults = {}"
  shows "\<exists>row. ChatMessages (fst (send_message sid p u n c (Some r) ru now faults s))
                 = ChatMessages s @ [row]
           \<and> hd (snd (send_message sid p u n c (Some r) ru now faults s))
                 = (ToRoom p, NewMessage (Some row))
           \<and> \<not> list_ex isError (snd (send_message sid p u n c (Some r) ru now faults s))
           \<and> (case find (\<lambda>m. cm_id m = r \<and> cm_isDeleted m = 0) (ChatMessages s) of
                None \<Rightarrow> cm_replyToUserName row = None \<and> cm_replyToMessageContent row = None
              | Some m \<Rightarrow> cm_replyToUserName row = Some (cm_senderName m)
                          \<and> cm_replyToMessageContent row = Some (cm_messageContent m))"
proof -
  have z: "getLiveMessage s 0 = None"
    using assms(1) by (auto simp: getLiveMessage_None_iff)
  have t: "(case Some r of Some i \<Rightarrow> if i \<noteq> 0 then getLiveMessage s i else None | None \<Rightarrow> None)
             = find (\<lambda>m. cm_id m = r \<and> cm_isDeleted m = 0) (ChatMessages s)"
    using z by (cases "r = 0") (auto simp: getLiveMessage_def)
  from send_stored[OF assms(2-5), of sid n "Some r" ru]
  obtain row where row:
    "ChatMessages (fst (send_message sid p u n c (Some r) ru now faults s)) = ChatMessages s @ [row]"
    "hd (snd (send_message sid p u n c (Some r) ru now faults s)) = (ToRoom p, NewMessage (Some row))"
    "\<not> list_ex isError (snd (send_message sid p u n c (Some r) ru now faults s))"
    "cm_replyToUserName row = map_option cm_senderName
        (case Some r of Some i \<Rightarrow> if i \<noteq> 0 then getLiveMessage s i else None | None \<Rightarrow> None)"
    "cm_replyToMessageContent row = map_option cm_messageContent
        (case Some r of Some i \<Rightarrow> if i \<noteq> 0 then getLiveMessage s i else None | None \<Rightarrow> None)"
    by blast
  have "case find (\<lambda>m. cm_id m = r \<and> cm_isDeleted m = 0) (ChatMessages s) of
                None \<Rightarrow> cm_replyToUserName row = None \<and> cm_replyToMessageContent row = None
              | Some m \<Rightarrow> cm_replyToUserName row = Some (cm_senderName m)
                          \<and> cm_replyToMessageContent row = Some (cm_messageContent m)"
    using row(4,5) unfolding t by (simp split: option.splits)
  with row(1-3) show ?thesis by blast
qed

theorem C8_witness:
  "list_all (\<lambda>m. cm_id m \<noteq> 0) (ChatMessages exState)
   \<and> fst (rateLimit (userMessageRateLimit exState) 1 100000) \<and> \<not> emptyContent (Some [104, 105])
   \<and> isProjectMember exState 7 1 \<noteq> None \<and> ({}::nat set) = {}
   \<and> find (\<lambda>m. cm_id m = 43 \<and> cm_isDeleted m = 0) (ChatMessages exState) = None
   \<and> find (\<lambda>m. cm_id m = 50 \<and> cm_isDeleted m = 0) (ChatMessages exState) = None
   \<and> send_message 1 7 1 [65] (Some [104, 105]) (Some 43) (Some 1) 100000 {} exState
       = (exState\<lparr>userMessageRateLimit := [(1, \<lparr>count = 1, timestamp = 100000\<rparr>)],
                  ChatMessages := ChatMessages exState
                    @ [(exMessage 44 1 0)\<lparr>cm_replyToMessageId := Some 43, cm_replyToUserId := Some 1\<rparr>],
                  ChatMessages_seq := 44\<rparr>,
          [(ToRoom 7, NewMessage (Some ((exMessage 44 1 0)
              \<lparr>cm_replyToMessageId := Some 43, cm_replyToUserId := Some 1\<rparr>)))])
   \<and> snd (send_message 1 7 1 [65] (Some [104, 105]) (Some 50) None 100000 {} exState)
       = [(ToRoom 7, NewMessage (Some ((exMessage 44 1 0)\<lparr>cm_replyToMessageId := Some 50\<rparr>)))]
   \<and> snd (send_message 1 7 1 [65] (Some [104, 105]) (Some 42) (Some 1) 100000 {} exState)
       = [(ToRoom 7, NewMessage (Some ((exMessage 44 1 0)
              \<lparr>cm_replyToMessageId := Some 42, cm_replyToUserId := Some 1,
                cm_replyToUserName := Some [65], cm_replyToMessageContent := Some [104, 105]\<rparr>)))]"
  using C8_reply_target_tolerated [of exState 1 100000 "Some [104, 105]" 7 "{}" 1 "[65]" 43 "Some 1"]
  by (simp add: send_message_def rateLimit_def emptyContent_def trim_def
        isWhiteSpace_def isProjectMember_def getLiveMessage_def getMessage_def newRow_def
        lastID_def insertMessage_def clearTypingIndicator_def orNull_def truthy_def
        CURRENT_TIMESTAMP_def exState_def exMessage_def split_def Let_def)


subsection \<open>Handlers do not look at the connection\<close>



lemma store_reads_sockets [simp]:
  "isProjectMember (s\<lparr>sockets := k\<rparr>) = isProjectMember s"
  "getLiveMessage (s\<lparr>sockets := k\<rparr>) = getLiveMessage s"
  "getMessage (s\<lparr>sockets := k\<rparr>) = getMessage s"
  "lastID (s\<lparr>sockets := k\<rparr>) = lastID s"
  "newRow (s\<lparr>sockets := k\<rparr>) = newRow s"
  by (simp_all add: isProjectMember_def getLiveMessage_def getMessage_def lastID_def newRow_def
        fun_eq_iff)

lemma store_writes_sockets [simp]:
  "insertMessage (s\<lparr>sockets := k\<rparr>) row = (insertMessage s row)\<lparr>sockets := k\<rparr>"
  "updateContent (s\<lparr>sockets := k\<rparr>) i x now = (updateContent s i x now)\<lparr>sockets := k\<rparr>"
  "softDelete (s\<lparr>sockets := k\<rparr>) i now = (softDelete s i now)\<lparr>sockets := k\<rparr>"
  by (simp_all add: insertMessage_def updateContent_def softDelete_def)








subsection \<open>Soft deletion and history pages\<close>

lemma delete_message_done:
  assumes "0 \<notin> faults" and "1 \<notin> faults" and "getLiveMessage s i = Some m" and "cm_senderId m = u"
  shows "delete_message sid i u now faults s
           = (softDelete s i now, [(ToRoom (cm_projectId m), MessageDeleted i)])"
  using assms by (simp add: delete_message_def)

lemma softDeleted_map:
  assumes "\<And>r. cm_id (g r) = cm_id r" and "\<And>r. cm_isDeleted r \<noteq> 0 \<Longrightarrow> cm_isDeleted (g r) \<noteq> 0"
    and "softDeleted i s"
  shows "softDeleted i (s\<lparr>ChatMessages := map g (ChatMessages s)\<rparr>)"
proof -
  from assms(3) obtain r where r: "r \<in> set (ChatMessages s)" "cm_id r = i"
    by (auto simp: softDeleted_def list_ex_iff)
  have "g r \<in> g ` set (ChatMessages s)" using r(1) by (rule imageI)
  moreover have "cm_id (g r) = i" using assms(1) r(2) by simp
  ultimately have ex: "list_ex (\<lambda>r. cm_id r = i) (map g (ChatMessages s))"
    unfolding list_ex_iff set_map by blast
  have old: "\<forall>x\<in>set (ChatMessages s). cm_id x = i \<longrightarrow> cm_isDeleted x \<noteq> 0"
    using assms(3) by (simp add: softDeleted_def list_all_iff)
  have "cm_isDeleted (g x) \<noteq> 0" if "x \<in> set (ChatMessages s)" "cm_id (g x) = i" for x
  proof -
    from that(2) have "cm_id x = i" by (simp only: assms(1))
    with that(1) old have "cm_isDeleted x \<noteq> 0" by blast
    then show ?thesis by (rule assms(2))
  qed
  then have "list_all (\<lambda>r. cm_id r = i \<longrightarrow> cm_isDeleted r \<noteq> 0) (map g (ChatMessages s))"
    unfolding list_all_iff set_map by blast
  with ex show ?thesis by (simp add: softDeleted_def)
qed

lemma softDeleted_rewrite:
  assumes "\<And>r. cm_id (f r) = cm_id r" and "\<And>r. cm_isDeleted r \<noteq> 0 \<Longrightarrow> cm_isDeleted (f r) \<noteq> 0"
    and "softDeleted i s"
  shows "softDeleted i (s\<lparr>ChatMessages := map (\<lambda>m. if cm_id m = j then f m else m) (ChatMessages s)\<rparr>)"
proof (rule softDeleted_map)
  show "cm_id (if cm_id r = j then f r else r) = cm_id r" for r
    using assms(1) by simp
  show "cm_isDeleted (if cm_id r = j then f r else r) \<noteq> 0" if "cm_isDeleted r \<noteq> 0" for r
    using assms(2) that by simp
  show "softDeleted i s" by (rule assms(3))
qed

lemma softDeleted_softDelete:
  assumes "getLiveMessage s i = Some m"
  shows "softDeleted i (softDelete s i now)"
proof -
  define g :: "chatMessage \<Rightarrow> chatMessage" where "g = (\<lambda>m. if cm_id m = i
                 then m\<lparr>cm_isDeleted := 1, cm_updatedAt := CURRENT_TIMESTAMP now\<rparr> else m)"
  have gid: "cm_id (g r) = cm_id r" for r by (simp add: g_def)
  have gdel: "cm_isDeleted (g r) \<noteq> 0" if "cm_id (g r) = i" for r
    using that by (cases "cm_id r = i") (simp_all add: g_def)
  from getLiveMessage_SomeD[OF assms] have m: "m \<in> set (ChatMessages s)" "cm_id m = i" by auto
  have "g m \<in> g ` set (ChatMessages s)" using m(1) by (rule imageI)
  moreover have "cm_id (g m) = i" using m(2) gid by simp
  ultimately have "list_ex (\<lambda>r. cm_id r = i) (map g (ChatMessages s))"
    unfolding list_ex_iff set_map by blast
  moreover have "list_all (\<lambda>r. cm_id r = i \<longrightarrow> cm_isDeleted r \<noteq> 0) (map g (ChatMessages s))"
    unfolding list_all_iff set_map using gdel by blast
  ultimately have "softDeleted i (s\<lparr>ChatMessages := map g (ChatMessages s)\<rparr>)"
    by (simp add: softDeleted_def)
  then show ?thesis by (simp add: softDelete_def g_def)
qed

lemma softDeleted_fields [simp]:
  "softDeleted i (s\<lparr>userMessageRateLimit := m\<rparr>) = softDeleted i s"
  "softDeleted i (s\<lparr>sockets := k\<rparr>) = softDeleted i s"
  by (simp_all add: softDeleted_def)

lemma softDeleted_insert:
  assumes "softDeleted i s" and "cm_id row = lastID s"
  shows "softDeleted i (insertMessage s row)"
proof -
  have "cm_id row \<noteq> i"
    using assms by (auto simp: softDeleted_def list_ex_iff dest: lastID_fresh)
  then show ?thesis using assms(1) by (simp add: softDeleted_def insertMessage_def)
qed

lemma softDeleted_clear:
  "softDeleted i (fst (clearTypingIndicator s p u)) = softDeleted i s"
  by (simp add: softDeleted_def)

lemma softDeleted_send:
  assumes "softDeleted i s"
  shows "softDeleted i (fst (send_message sid p u n c r ru now faults s))"
proof -
  let ?s1 = "s\<lparr>userMessageRateLimit := snd (rateLimit (userMessageRateLimit s) u now)\<rparr>"
  have "softDeleted i (insertMessage ?s1 row)" if "cm_id row = lastID s" for row
    using assms that by (intro softDeleted_insert) simp_all
  then show ?thesis
    using assms
    by (simp add: send_message_def split_def Let_def softDeleted_clear newRow_def)
qed

lemma softDeleted_edit:
  assumes "softDeleted i s"
  shows "softDeleted i (fst (edit_message sid j u c now faults s))"
  using softDeleted_rewrite[OF _ _ assms, of
      "\<lambda>m. m\<lparr>cm_messageContent := (case c of Some c \<Rightarrow> c | None \<Rightarrow> []),
             cm_editedAt := Some (CURRENT_TIMESTAMP now),
             cm_updatedAt := CURRENT_TIMESTAMP now\<rparr>" j] assms
  by (simp add: edit_message_def Let_def updateContent_def split: option.splits)

lemma softDeleted_delete:
  assumes "softDeleted i s"
  shows "softDeleted i (fst (delete_message sid j u now faults s))"
  using softDeleted_rewrite[OF _ _ assms, of
      "\<lambda>m. m\<lparr>cm_isDeleted := 1, cm_updatedAt := CURRENT_TIMESTAMP now\<rparr>" j] assms
  by (simp add: delete_message_def Let_def softDelete_def split: option.splits)

lemma typing_tables [simp]:
  "ChatMessages (fst (typing sid p u n s)) = ChatMessages s"
  "ChatMessages_seq (fst (typing sid p u n s)) = ChatMessages_seq s"
  by (simp_all add: typing_def setTimeout_def split_def Let_def)

lemma timeout_fires_tables [simp]:
  "ChatMessages (fst (timeout_fires t s)) = ChatMessages s"
  "ChatMessages_seq (fst (timeout_fires t s)) = ChatMessages_seq s"
  by (simp_all add: timeout_fires_def clearTimeout_def split: option.splits prod.splits)

lemma disconnect_tables [simp]:
  "ChatMessages (fst (disconnect sid now s)) = ChatMessages s"
  "ChatMessages_seq (fst (disconnect sid now s)) = ChatMessages_seq s"
  by (simp_all add: disconnect_def Let_def split_def split: option.splits)

lemma join_tables [simp]:
  "ChatMessages (fst (join_project_chat sid p u n now faults s)) = ChatMessages s"
  "ChatMessages_seq (fst (join_project_chat sid p u n now faults s)) = ChatMessages_seq s"
  by (simp_all add: join_project_chat_def)

text \<open>The states an HTTP request can leave.\<close>

lemma sendMessage_state:
  "fst (sendMessage p u n c r ru now faults s) = s
   \<or> (\<exists>row. cm_id row = lastID s \<and> fst (sendMessage p u n c r ru now faults s) = insertMessage s row)"
proof -
  have id: "cm_id (newRow s now a b x y z w v q) = lastID s" for a b x y z w v q
    by (simp add: newRow_def)
  have ex: "\<exists>row. cm_id row = lastID s
              \<and> insertMessage s (newRow s now a b x y z w v q) = insertMessage s row"
    for a b x y z w v q
    using id by blast
  show ?thesis
    by (cases p; cases u; cases n; cases c) (simp_all add: sendMessage_def Let_def ex)
qed

lemma editMessage_state:
  "fst (editMessage i u c now faults s) = s
   \<or> (\<exists>x. fst (editMessage i u c now faults s) = updateContent s i x now)"
  by (cases u; cases c; cases "getLiveMessage s i") (auto simp: editMessage_def Let_def)

lemma deleteMessage_state:
  "fst (deleteMessage i u now faults s) = s
   \<or> fst (deleteMessage i u now faults s) = softDelete s i now"
  by (cases "getLiveMessage s i") (simp_all add: deleteMessage_def)

lemma updateMessageStatus_state:
  "fst (updateMessageStatus i st now faults s) = s
   \<or> (\<exists>x. fst (updateMessageStatus i st now faults s) = setStatus s i x now)"
  by (cases st) (auto simp: updateMessageStatus_def)

lemma softDeleted_http:
  assumes "softDeleted i s"
  shows "softDeleted i (fst (sendMessage p u n c r ru now faults s))"
    and "softDeleted i (fst (editMessage j u c now faults s))"
    and "softDeleted i (fst (deleteMessage j u now faults s))"
    and "softDeleted i (fst (updateMessageStatus j st now faults s))"
proof -
  show "softDeleted i (fst (sendMessage p u n c r ru now faults s))"
    using sendMessage_state[of p u n c r ru now faults s] assms
    by (auto simp: softDeleted_insert)
  have e: "softDeleted i (updateContent s j x now)" for x
    unfolding updateContent_def by (rule softDeleted_rewrite[OF _ _ assms]) simp_all
  show "softDeleted i (fst (editMessage j u c now faults s))"
    using editMessage_state[of j u c now faults s] assms e by auto
  have d: "softDeleted i (softDelete s j now)"
    unfolding softDelete_def by (rule softDeleted_rewrite[OF _ _ assms]) simp_all
  show "softDeleted i (fst (deleteMessage j u now faults s))"
    using deleteMessage_state[of j u now faults s] assms d by auto
  have st: "softDeleted i (setStatus s j x now)" for x
    unfolding setStatus_def by (rule softDeleted_rewrite[OF _ _ assms]) simp_all
  show "softDeleted i (fst (updateMessageStatus j st now faults s))"
    using updateMessageStatus_state[of j st now faults s] assms st by auto
qed

lemma softDeleted_handle:
  "softDeleted i s \<Longrightarrow> softDeleted i (fst (handle e now faults s))"
proof (cases e)
  case (SendMessage sid p u n c r ru)
  assume "softDeleted i s"
  then show ?thesis unfolding SendMessage handle.simps by (rule softDeleted_send)
next
  case (EditMessage sid j u c)
  assume "softDeleted i s"
  then show ?thesis unfolding EditMessage handle.simps by (rule softDeleted_edit)
next
  case (DeleteMessage sid j u)
  assume "softDeleted i s"
  then show ?thesis unfolding DeleteMessage handle.simps by (rule softDeleted_delete)
next
  case (HttpSendMessage p u n c r ru)
  assume "softDeleted i s"
  then show ?thesis unfolding HttpSendMessage handle.simps fst_conv by (rule softDeleted_http)
next
  case (HttpEditMessage j u c)
  assume "softDeleted i s"
  then show ?thesis unfolding HttpEditMessage handle.simps fst_conv by (rule softDeleted_http)
next
  case (HttpDeleteMessage j u)
  assume "softDeleted i s"
  then show ?thesis unfolding HttpDeleteMessage handle.simps fst_conv by (rule softDeleted_http)
next
  case (HttpUpdateMessageStatus j st)
  assume "softDeleted i s"
  then show ?thesis unfolding HttpUpdateMessageStatus handle.simps fst_conv
    by (rule softDeleted_http)
qed (simp_all add: softDeleted_def stop_typing_def)

lemma softDeleted_step: "softDeleted i s \<Longrightarrow> softDeleted i (step s x)"
  by (cases x) (auto simp: step_def softDeleted_handle split: option.splits)

lemma softDeleted_run: "softDeleted i s \<Longrightarrow> softDeleted i (run s xs)"
  unfolding run_def by (induction xs arbitrary: s) (simp_all add: softDeleted_step)

lemma listPage_subset:
  "set (listPage s p limit offset)
     \<subseteq> {m \<in> set (ChatMessages s). cm_projectId m = p \<and> cm_isDeleted m = 0}"
proof -
  let ?rows = "sort_key cm_createdAt
                 (filter (\<lambda>m. cm_projectId m = p \<and> cm_isDeleted m = 0) (ChatMessages s))"
  have "set (drop (nat offset) ?rows) \<subseteq> set ?rows"
    by (rule set_drop_subset)
  moreover have "set (take (nat limit) (drop (nat offset) ?rows)) \<subseteq> set (drop (nat offset) ?rows)"
    by (rule set_take_subset)
  ultimately have "set (listPage s p limit offset) \<subseteq> set ?rows"
    by (auto simp: listPage_def Let_def)
  then show ?thesis by auto
qed

lemma listPage_sorted: "sorted (map cm_createdAt (listPage s p limit offset))"
proof -
  let ?rows = "sort_key cm_createdAt
                 (filter (\<lambda>m. cm_projectId m = p \<and> cm_isDeleted m = 0) (ChatMessages s))"
  have a: "sorted (map cm_createdAt ?rows)" by (rule sorted_sort_key)
  have b: "sorted (map cm_createdAt (drop (nat offset) ?rows))"
    unfolding drop_map[symmetric] using a by (rule sorted_wrt_drop)
  have c: "sorted (map cm_createdAt (take (nat limit) (drop (nat offset) ?rows)))"
    unfolding take_map[symmetric] using b by (rule sorted_wrt_take)
  show ?thesis
  proof (cases "limit < 0")
    case True
    then show ?thesis using b by (simp only: listPage_def Let_def if_True)
  next
    case False
    then show ?thesis using c by (simp only: listPage_def Let_def if_False)
  qed
qed

lemma softDeleted_not_listed:
  "softDeleted i s \<Longrightarrow> i \<notin> cm_id ` set (listPage s p limit offset)"
proof
  assume d: "softDeleted i s" and "i \<in> cm_id ` set (listPage s p limit offset)"
  then obtain m where m: "m \<in> set (listPage s p limit offset)" "cm_id m = i" by auto
  from m(1) listPage_subset[of s p limit offset]
  have "m \<in> set (ChatMessages s)" "cm_isDeleted m = 0" by auto
  with d m(2) show False by (auto simp: softDeleted_def list_all_iff)
qed

lemma getChatHistory_rows:
  "getChatHistory s p uid page limit f = Messages rows cnt \<Longrightarrow>
   rows = listPage s p limit ((page - 1) * limit)"
  by (auto simp: getChatHistory_def split: option.splits if_splits)

text \<open>
  Claim C9. A delete by the sender of a live message, with its two store calls
  succeeding, rewrites the rows of that id by setting \<open>isDeleted\<close> to 1 and \<open>updatedAt\<close>
  and nothing else, and emits to the message's project room a \<open>message-deleted\<close> that
  carries the id only. The row stays in the table, and after any further events (socket
  events, timeouts and requests of the HTTP chat API) no page of any project, limit and
  offset (and no \<open>getChatHistory\<close> response) holds a row with that id. Pages are ordered by \<open>createdAt\<close> ascending and hold only live rows of the
  project asked for.
\<close>

theorem C9_soft_delete_hides_message:
  assumes "0 \<notin> faults" and "1 \<notin> faults" and "getLiveMessage s i = Some m" and "cm_senderId m = u"
  shows "delete_message sid i u now faults s
           = (s\<lparr>ChatMessages :=
                  map (\<lambda>r. if cm_id r = i
                            then r\<lparr>cm_isDeleted := 1, cm_updatedAt := CURRENT_TIMESTAMP now\<rparr>
                            else r)
                      (ChatMessages s)\<rparr>,
              [(ToRoom (cm_projectId m), MessageDeleted i)])
         \<and> i \<in> cm_id ` set (ChatMessages (run (fst (delete_message sid i u now faults s)) xs))
         \<and> i \<notin> cm_id ` set (listPage (run (fst (delete_message sid i u now faults s)) xs) p limit offset)
         \<and> (getChatHistory (run (fst (delete_message sid i u now faults s)) xs) p uid page limit f
               = Messages rows cnt \<longrightarrow> i \<notin> cm_id ` set rows)
         \<and> sorted (map cm_createdAt (listPage s' p limit offset))
         \<and> (\<forall>r\<in>set (listPage s' p limit offset). cm_projectId r = p \<and> cm_isDeleted r = 0)"
proof -
  have d: "delete_message sid i u now faults s
             = (softDelete s i now, [(ToRoom (cm_projectId m), MessageDeleted i)])"
    using assms by (rule delete_message_done)
  have "softDeleted i (softDelete s i now)"
    using assms(3) by (rule softDeleted_softDelete)
  then have inv: "softDeleted i (run (fst (delete_message sid i u now faults s)) xs)"
    unfolding d fst_conv by (rule softDeleted_run)
  have 1: "i \<in> cm_id ` set (ChatMessages (run (fst (delete_message sid i u now faults s)) xs))"
    using inv by (auto simp: softDeleted_def list_ex_iff)
  have 2: "i \<notin> cm_id ` set (listPage (run (fst (delete_message sid i u now faults s)) xs) p l off)"
    for p l off
    using inv by (rule softDeleted_not_listed)
  have 3: "i \<notin> cm_id ` set rows"
    if "getChatHistory (run (fst (delete_message sid i u now faults s)) xs) p uid page limit f
          = Messages rows cnt"
    using getChatHistory_rows[OF that] 2 by simp
  have 4: "\<forall>r\<in>set (listPage s' p limit offset). cm_projectId r = p \<and> cm_isDeleted r = 0"
    using listPage_subset[of s' p limit offset] by auto
  show ?thesis
    using d 1 2 3 4 listPage_sorted[of s' p limit offset] by (simp add: softDelete_def)
qed

theorem C9_witness:
  "0 \<notin> ({}::nat set) \<and> 1 \<notin> ({}::nat set)
   \<and> getLiveMessage exState 42 = Some (exMessage 42 1 0) \<and> cm_senderId (exMessage 42 1 0) = 1
   \<and> delete_message 1 42 1 200000 {} exState
       = (exState\<lparr>ChatMessages := [(exMessage 42 1 1)\<lparr>cm_updatedAt := 200\<rparr>, exMessage 43 1 1]\<rparr>,
          [(ToRoom 7, MessageDeleted 42)])
   \<and> listPage exState 7 50 0 = [exMessage 42 1 0]
   \<and> listPage (run (fst (delete_message 1 42 1 200000 {} exState))
                 [(SendMessage 1 7 1 [65] (Some [104, 105]) None None, 100000, {})]) 7 50 0
       = [exMessage 44 1 0]
   \<and> 42 \<notin> cm_id ` set (listPage (run (fst (delete_message 1 42 1 200000 {} exState))
                 [(SendMessage 1 7 1 [65] (Some [104, 105]) None None, 100000, {})]) 7 50 0)"
proof -
  have h1: "0 \<notin> ({}::nat set)" and h2: "1 \<notin> ({}::nat set)" by simp_all
  have h3: "getLiveMessage exState 42 = Some (exMessage 42 1 0)"
    by (simp add: getLiveMessage_def exState_def exMessage_def)
  have h4: "cm_senderId (exMessage 42 1 0) = 1" by (simp add: exMessage_def)
  note T = C9_soft_delete_hides_message [OF h1 h2 h3 h4, of 1 200000
      "[(SendMessage 1 7 1 [65] (Some [104, 105]) None None, 100000, {})]" 7 50 0]
  have w1: "delete_message 1 42 1 200000 {} exState
       = (exState\<lparr>ChatMessages := [(exMessage 42 1 1)\<lparr>cm_updatedAt := 200\<rparr>, exMessage 43 1 1]\<rparr>,
          [(ToRoom 7, MessageDeleted 42)])"
    by (simp add: delete_message_def softDelete_def getLiveMessage_def
        CURRENT_TIMESTAMP_def exState_def exMessage_def)
  have w2: "listPage exState 7 50 0 = [exMessage 42 1 0]"
    by (simp add: listPage_def exState_def exMessage_def)
  have w3: "run (exState\<lparr>ChatMessages := [(exMessage 42 1 1)\<lparr>cm_updatedAt := 200\<rparr>, exMessage 43 1 1]\<rparr>)
                 [(SendMessage 1 7 1 [65] (Some [104, 105]) None None, 100000, {})]
    = exState\<lparr>userMessageRateLimit := [(1, \<lparr>count = 1, timestamp = 100000\<rparr>)],
         ChatMessages := [(exMessage 42 1 1)\<lparr>cm_updatedAt := 200\<rparr>, exMessage 43 1 1, exMessage 44 1 0],
         ChatMessages_seq := 44\<rparr>"
    by (simp add: run_def step_def
        send_message_def rateLimit_def emptyContent_def trim_def
        isWhiteSpace_def isProjectMember_def getLiveMessage_def getMessage_def newRow_def
        lastID_def insertMessage_def clearTypingIndicator_def orNull_def truthy_def
        CURRENT_TIMESTAMP_def exState_def exMessage_def newSocket_def split_def Let_def)
  have w4: "listPage (run (fst (delete_message 1 42 1 200000 {} exState))
                 [(SendMessage 1 7 1 [65] (Some [104, 105]) None None, 100000, {})]) 7 50 0
       = [exMessage 44 1 0]"
    unfolding w1 fst_conv w3 by (simp add: listPage_def exMessage_def)
  from T have w5: "42 \<notin> cm_id ` set (listPage (run (fst (delete_message 1 42 1 200000 {} exState))
                 [(SendMessage 1 7 1 [65] (Some [104, 105]) None None, 100000, {})]) 7 50 0)"
    by blast
  show ?thesis using h1 h2 h3 h4 w1 w2 w4 w5 by blast
qed

subsection \<open>Message ids are never 0\<close>

lemma ids_updateContent [simp]:
  "map cm_id (ChatMessages (updateContent s j x now)) = map cm_id (ChatMessages s)"
  by (simp add: updateContent_def if_distrib[of cm_id] comp_def)

lemma ids_softDelete [simp]:
  "map cm_id (ChatMessages (softDelete s j now)) = map cm_id (ChatMessages s)"
  by (simp add: softDelete_def if_distrib[of cm_id] comp_def)

lemma ids_nonzero_send:
  assumes "0 \<notin> set (map cm_id (ChatMessages s))"
  shows "0 \<notin> set (map cm_id (ChatMessages (fst (send_message sid p u n c r ru now faults s))))"
  using assms
  by (simp add: send_message_def split_def Let_def insertMessage_def newRow_def lastID_def)

lemma ids_nonzero_edit:
  assumes "0 \<notin> set (map cm_id (ChatMessages s))"
  shows "0 \<notin> set (map cm_id (ChatMessages (fst (edit_message sid j u c now faults s))))"
  using assms
  by (simp add: edit_message_def Let_def split: option.splits del: set_map)

lemma ids_nonzero_delete:
  assumes "0 \<notin> set (map cm_id (ChatMessages s))"
  shows "0 \<notin> set (map cm_id (ChatMessages (fst (delete_message sid j u now faults s))))"
  using assms
  by (simp add: delete_message_def Let_def split: option.splits del: set_map)

lemma ids_setStatus [simp]:
  "map cm_id (ChatMessages (setStatus s j x now)) = map cm_id (ChatMessages s)"
  by (simp add: setStatus_def if_distrib[of cm_id] comp_def)

lemma ids_nonzero_http:
  assumes "0 \<notin> set (map cm_id (ChatMessages s))"
  shows "0 \<notin> set (map cm_id (ChatMessages (fst (sendMessage p u n c r ru now faults s))))"
    and "0 \<notin> set (map cm_id (ChatMessages (fst (editMessage j u c now faults s))))"
    and "0 \<notin> set (map cm_id (ChatMessages (fst (deleteMessage j u now faults s))))"
    and "0 \<notin> set (map cm_id (ChatMessages (fst (updateMessageStatus j st now faults s))))"
proof -
  show "0 \<notin> set (map cm_id (ChatMessages (fst (sendMessage p u n c r ru now faults s))))"
    using sendMessage_state[of p u n c r ru now faults s] assms
    by (auto simp: insertMessage_def lastID_def)
  show "0 \<notin> set (map cm_id (ChatMessages (fst (editMessage j u c now faults s))))"
    using editMessage_state[of j u c now faults s] assms by (auto simp del: set_map)
  show "0 \<notin> set (map cm_id (ChatMessages (fst (deleteMessage j u now faults s))))"
    using deleteMessage_state[of j u now faults s] assms by (auto simp del: set_map)
  show "0 \<notin> set (map cm_id (ChatMessages (fst (updateMessageStatus j st now faults s))))"
    using updateMessageStatus_state[of j st now faults s] assms by (auto simp del: set_map)
qed

lemma ids_nonzero_handle:
  assumes "0 \<notin> set (map cm_id (ChatMessages s))"
  shows "0 \<notin> set (map cm_id (ChatMessages (fst (handle e now faults s))))"
proof (cases e)
  case (SendMessage sid p u n c r ru)
  show ?thesis unfolding SendMessage handle.simps using assms by (rule ids_nonzero_send)
next
  case (EditMessage sid j u c)
  show ?thesis unfolding EditMessage handle.simps using assms by (rule ids_nonzero_edit)
next
  case (DeleteMessage sid j u)
  show ?thesis unfolding DeleteMessage handle.simps using assms by (rule ids_nonzero_delete)
next
  case (HttpSendMessage p u n c r ru)
  show ?thesis unfolding HttpSendMessage handle.simps fst_conv using assms
    by (rule ids_nonzero_http)
next
  case (HttpEditMessage j u c)
  show ?thesis unfolding HttpEditMessage handle.simps fst_conv using assms
    by (rule ids_nonzero_http)
next
  case (HttpDeleteMessage j u)
  show ?thesis unfolding HttpDeleteMessage handle.simps fst_conv using assms
    by (rule ids_nonzero_http)
next
  case (HttpUpdateMessageStatus j st)
  show ?thesis unfolding HttpUpdateMessageStatus handle.simps fst_conv using assms
    by (rule ids_nonzero_http)
qed (use assms in \<open>simp_all add: stop_typing_def\<close>)

lemma ids_nonzero_step:
  "0 \<notin> set (map cm_id (ChatMessages s)) \<Longrightarrow> 0 \<notin> set (map cm_id (ChatMessages (step s x)))"
  using ids_nonzero_handle[of s] by (cases x) (simp add: step_def split: option.splits)

lemma ids_nonzero_run:
  "\<forall>m\<in>set (ChatMessages s). cm_id m \<noteq> 0 \<Longrightarrow> \<forall>m\<in>set (ChatMessages (run s xs)). cm_id m \<noteq> 0"
proof -
  have "0 \<notin> set (map cm_id (ChatMessages (foldl step s xs)))"
    if "0 \<notin> set (map cm_id (ChatMessages s))" using that
  proof (induction xs arbitrary: s)
    case Nil
    then show ?case by simp
  next
    case (Cons x xs)
    from Cons.prems have "0 \<notin> set (map cm_id (ChatMessages (step s x)))"
      by (rule ids_nonzero_step)
    then have "0 \<notin> set (map cm_id (ChatMessages (foldl step (step s x) xs)))"
      by (rule Cons.IH)
    then show ?case by simp
  qed
  moreover assume "\<forall>m\<in>set (ChatMessages s). cm_id m \<noteq> 0"
  ultimately show ?thesis by (fastforce simp: run_def)
qed

subsection \<open>The invariant of the typing state\<close>

lemma delete_Nil_lookup:
  "AList.delete k al = [] \<Longrightarrow> k' \<noteq> k \<Longrightarrow> map_of al k' = None"
proof -
  assume a: "AList.delete k al = []" and b: "k' \<noteq> k"
  have "map_of (AList.delete k al) k' = map_of al k'" using b by (simp add: delete_conv')
  then show ?thesis using a by simp
qed

lemma typingEntry_clear:
  "typingEntry (fst (clearTypingIndicator s p u)) p' u'
     = (if p' = p \<and> u' = u then None else typingEntry s p' u')"
  by (auto simp: typingEntry_def clearTypingIndicator_def clearTimeout_def Let_def
        delete_conv' update_conv' delete_Nil_lookup split: option.splits)

lemma timeouts_clear:
  "timeouts (fst (clearTypingIndicator s p u))
     = (case typingEntry s p u of None \<Rightarrow> timeouts s | Some t \<Rightarrow> AList.delete t (timeouts s))"
  "nextTimeout (fst (clearTypingIndicator s p u)) = nextTimeout s"
  by (auto simp: typingEntry_def clearTypingIndicator_def clearTimeout_def Let_def
        split: option.splits)

lemma typingUsers_clear:
  "typingUsers (fst (clearTypingIndicator s p u))
     = (case map_of (typingUsers s) p of
          None \<Rightarrow> typingUsers s
        | Some pt \<Rightarrow>
            (case map_of pt u of
               None \<Rightarrow> typingUsers s
             | Some t \<Rightarrow> if AList.delete u pt = [] then AList.delete p (typingUsers s)
                         else AList.update p (AList.delete u pt) (typingUsers s)))"
  by (simp add: clearTypingIndicator_def clearTimeout_def Let_def split: option.splits)

lemma typingUsers_clear_distinct:
  assumes "distinct (map fst (typingUsers s))"
  shows "distinct (map fst (typingUsers (fst (clearTypingIndicator s p u))))"
  using assms
  by (simp add: typingUsers_clear distinct_delete distinct_update split: option.splits)

lemma typingUsers_clear_inner:
  assumes "\<forall>p pt. map_of (typingUsers s) p = Some pt \<longrightarrow> distinct (map fst pt)"
    and "map_of (typingUsers (fst (clearTypingIndicator s p u))) q = Some pt"
  shows "distinct (map fst pt)"
proof (cases "map_of (typingUsers s) p")
  case None
  then show ?thesis using assms by (simp add: typingUsers_clear del: map_of_eq_Some_iff)
next
  case (Some pt0)
  then have d0: "distinct (map fst pt0)" using assms(1) by blast
  show ?thesis
  proof (cases "map_of pt0 u")
    case None
    then show ?thesis using assms Some by (simp add: typingUsers_clear del: map_of_eq_Some_iff)
  next
    case (Some t)
    show ?thesis
    proof (cases "q = p")
      case True
      have "pt = AList.delete u pt0"
        using assms(2) \<open>map_of (typingUsers s) p = Some pt0\<close> Some True
        by (simp add: typingUsers_clear delete_conv' update_conv' split: if_splits
              del: map_of_eq_Some_iff)
      then show ?thesis using d0 by (simp add: distinct_delete)
    next
      case False
      have "map_of (typingUsers s) q = Some pt"
        using assms(2) \<open>map_of (typingUsers s) p = Some pt0\<close> Some False
        by (simp add: typingUsers_clear delete_conv' update_conv' split: if_splits
              del: map_of_eq_Some_iff)
      then show ?thesis using assms(1) by blast
    qed
  qed
qed


lemma presence_inv_clear:
  assumes "presence_inv s"
  shows "presence_inv (fst (clearTypingIndicator s p u))"
proof -
  let ?s' = "fst (clearTypingIndicator s p u)"
  from assms have i1: "distinct (map fst (typingUsers s))"
    and i2: "\<forall>p pt. map_of (typingUsers s) p = Some pt \<longrightarrow> distinct (map fst pt)"
    and i3: "distinct (map fst (timeouts s))"
    and i4: "\<forall>t\<in>set (map fst (timeouts s)). t < nextTimeout s"
    and i5: "\<And>p u t. typingEntry s p u = Some t \<longleftrightarrow> map_of (timeouts s) t = Some (p, u)"
    by (simp_all add: presence_inv_def)
  have 1: "distinct (map fst (typingUsers ?s'))"
    using i1 by (rule typingUsers_clear_distinct)
  have 2: "\<forall>q pt. map_of (typingUsers ?s') q = Some pt \<longrightarrow> distinct (map fst pt)"
    using typingUsers_clear_inner[OF i2] by blast
  have 3: "distinct (map fst (timeouts ?s'))"
    using i3 by (simp add: timeouts_clear distinct_delete split: option.splits)
  have 4: "\<forall>t\<in>set (map fst (timeouts ?s')). t < nextTimeout ?s'"
    using i4 by (auto simp: timeouts_clear AList.delete_eq split: option.splits)
  have 5: "typingEntry ?s' p' u' = Some t' \<longleftrightarrow> map_of (timeouts ?s') t' = Some (p', u')"
    for p' u' t'
  proof (cases "typingEntry s p u")
    case None
    then show ?thesis using i5[of p' u' t'] by (auto simp: typingEntry_clear timeouts_clear)
  next
    case (Some t)
    then have live: "map_of (timeouts s) t = Some (p, u)" by (simp only: i5)
    show ?thesis
    proof (cases "p' = p \<and> u' = u")
      case True
      have "t' = t" if "map_of (timeouts s) t' = Some (p, u)"
        using that Some i5[of p u t'] by simp
      then show ?thesis using True Some
        by (auto simp: typingEntry_clear timeouts_clear delete_conv')
    next
      case False
      have "t' \<noteq> t" if "map_of (timeouts s) t' = Some (p', u')"
        using that live False by auto
      then show ?thesis using False Some i5[of p' u' t']
        by (auto simp: typingEntry_clear timeouts_clear delete_conv')
    qed
  qed
  show ?thesis unfolding presence_inv_def using 1 2 3 4 5 by blast
qed


lemma typing_state:
  "typingUsers (fst (typing sid p u n s))
     = AList.update p
         (AList.update u (nextTimeout s)
            (case map_of (typingUsers (fst (clearTypingIndicator s p u))) p of
               None \<Rightarrow> [] | Some pt \<Rightarrow> pt))
         (typingUsers (fst (clearTypingIndicator s p u)))"
  "timeouts (fst (typing sid p u n s))
     = timeouts (fst (clearTypingIndicator s p u)) @ [(nextTimeout s, (p, u))]"
  "nextTimeout (fst (typing sid p u n s)) = Suc (nextTimeout s)"
  by (simp_all add: typing_def setTimeout_def split_def Let_def timeouts_clear)

lemma typingEntry_typing:
  "typingEntry (fst (typing sid p u n s)) p' u'
     = (if p' = p \<and> u' = u then Some (nextTimeout s) else typingEntry s p' u')"
proof -
  let ?s1 = "fst (clearTypingIndicator s p u)"
  have e1: "typingEntry ?s1 p' u' = (if p' = p \<and> u' = u then None else typingEntry s p' u')"
    by (rule typingEntry_clear)
  have "typingEntry (fst (typing sid p u n s)) p' u'
          = (if p' = p then (if u' = u then Some (nextTimeout s) else typingEntry ?s1 p u')
             else typingEntry ?s1 p' u')"
    by (simp add: typingEntry_def typing_state update_conv' split: option.splits)
  then show ?thesis using e1 typingEntry_clear[of s p u p u'] by simp
qed

lemma presence_inv_typing:
  assumes "presence_inv s"
  shows "presence_inv (fst (typing sid p u n s))"
proof -
  let ?s1 = "fst (clearTypingIndicator s p u)"
  let ?s3 = "fst (typing sid p u n s)"
  have inv1: "presence_inv ?s1" using assms by (rule presence_inv_clear)
  then have i1: "distinct (map fst (typingUsers ?s1))"
    and i2: "\<And>q pt. map_of (typingUsers ?s1) q = Some pt \<Longrightarrow> distinct (map fst pt)"
    and i3: "distinct (map fst (timeouts ?s1))"
    and i4: "\<forall>t\<in>set (map fst (timeouts ?s1)). t < nextTimeout s"
    and i5: "\<And>p u t. typingEntry ?s1 p u = Some t \<longleftrightarrow> map_of (timeouts ?s1) t = Some (p, u)"
    by (simp_all add: presence_inv_def timeouts_clear(2))
  have fresh: "map_of (timeouts ?s1) (nextTimeout s) = None"
  proof (rule ccontr)
    assume "map_of (timeouts ?s1) (nextTimeout s) \<noteq> None"
    then obtain b where "map_of (timeouts ?s1) (nextTimeout s) = Some b" by auto
    then have "(nextTimeout s, b) \<in> set (timeouts ?s1)" by (rule map_of_SomeD)
    then have "nextTimeout s \<in> set (map fst (timeouts ?s1))" by force
    with i4 show False by auto
  qed
  have 1: "distinct (map fst (typingUsers ?s3))"
    using i1 by (simp add: typing_state distinct_update)
  have 2: "distinct (map fst pt)" if "map_of (typingUsers ?s3) q = Some pt" for q pt
  proof (cases "q = p")
    case True
    let ?pt1 = "case map_of (typingUsers ?s1) p of None \<Rightarrow> [] | Some pt \<Rightarrow> pt"
    have "distinct (map fst ?pt1)"
      using i2[of p] by (cases "map_of (typingUsers ?s1) p") simp_all
    moreover have "pt = AList.update u (nextTimeout s) ?pt1"
      using that True by (simp add: typing_state update_conv' del: map_of_eq_Some_iff)
    ultimately show ?thesis by (simp add: distinct_update)
  next
    case False
    then have "map_of (typingUsers ?s1) q = Some pt"
      using that by (simp add: typing_state update_conv' del: map_of_eq_Some_iff)
    then show ?thesis by (rule i2)
  qed
  have notkey: "nextTimeout s \<notin> set (map fst (timeouts ?s1))"
    using i4 by auto
  have 3: "distinct (map fst (timeouts ?s3))"
    using i3 notkey by (simp add: typing_state)
  have 4: "\<forall>t\<in>set (map fst (timeouts ?s3)). t < nextTimeout ?s3"
    using i4 by (auto simp: typing_state)
  have m: "map_of (timeouts ?s3) t'
             = (if t' = nextTimeout s then Some (p, u) else map_of (timeouts ?s1) t')" for t'
    using fresh by (auto simp: typing_state map_add_def split: option.splits)
  have none: "typingEntry ?s1 p u = None" by (simp add: typingEntry_clear)
  have e: "typingEntry ?s3 p' u'
             = (if p' = p \<and> u' = u then Some (nextTimeout s) else typingEntry ?s1 p' u')" for p' u'
    by (simp add: typingEntry_typing typingEntry_clear)
  have 5: "typingEntry ?s3 p' u' = Some t' \<longleftrightarrow> map_of (timeouts ?s3) t' = Some (p', u')"
    for p' u' t'
  proof (cases "t' = nextTimeout s")
    case True
    have "typingEntry ?s1 p' u' \<noteq> Some (nextTimeout s)"
      using i5[of p' u' "nextTimeout s"] fresh by simp
    then show ?thesis using True by (auto simp: e m)
  next
    case False
    have "typingEntry ?s1 p u \<noteq> Some t'" using none by simp
    then have "map_of (timeouts ?s1) t' \<noteq> Some (p, u)" using i5[of p u t'] by simp
    then show ?thesis using False i5[of p' u' t'] by (auto simp: e m)
  qed
  show ?thesis unfolding presence_inv_def using 1 2 3 4 5 by blast
qed


lemma presence_inv_cong:
  "typingUsers s' = typingUsers s \<Longrightarrow> timeouts s' = timeouts s \<Longrightarrow> nextTimeout s' = nextTimeout s
   \<Longrightarrow> presence_inv s' = presence_inv s"
  by (simp add: presence_inv_def typingEntry_def)

lemma clear_after_fired:
  assumes "typingEntry s p u = Some t"
  shows "clearTypingIndicator (clearTimeout t s) p u
           = (fst (clearTypingIndicator s p u), [(ToRoom p, UserStoppedTyping u)])"
  using assms
  by (auto simp: typingEntry_def clearTypingIndicator_def clearTimeout_def Let_def delete_idem
        split: option.splits)

lemma presence_inv_timeout_fires:
  assumes "presence_inv s"
  shows "presence_inv (fst (timeout_fires t s))"
proof (cases "map_of (timeouts s) t")
  case None
  then show ?thesis using assms by (simp add: timeout_fires_def)
next
  case (Some b)
  obtain p u where b: "b = (p, u)" by (cases b)
  from assms have "typingEntry s p u = Some t \<longleftrightarrow> map_of (timeouts s) t = Some (p, u)"
    by (simp add: presence_inv_def)
  then have "typingEntry s p u = Some t" using Some b by simp
  then have "fst (timeout_fires t s) = fst (clearTypingIndicator s p u)"
    using Some b by (simp add: timeout_fires_def clear_after_fired)
  then show ?thesis using assms by (simp add: presence_inv_clear)
qed

lemma presence_inv_fields:
  "presence_inv (s\<lparr>userMessageRateLimit := m\<rparr>) = presence_inv s"
  "presence_inv (s\<lparr>sockets := k\<rparr>) = presence_inv s"
  "presence_inv (s\<lparr>ChatMessages := rows\<rparr>) = presence_inv s"
  "presence_inv (insertMessage s row) = presence_inv s"
  "presence_inv (updateContent s i x now) = presence_inv s"
  "presence_inv (softDelete s i now) = presence_inv s"
  "presence_inv (setStatus s i st now) = presence_inv s"
  by (simp_all add: presence_inv_def typingEntry_def insertMessage_def updateContent_def
        softDelete_def setStatus_def)

lemma presence_inv_http:
  assumes "presence_inv s"
  shows "presence_inv (fst (sendMessage p u n c r ru now faults s))"
    and "presence_inv (fst (editMessage j u c now faults s))"
    and "presence_inv (fst (deleteMessage j u now faults s))"
    and "presence_inv (fst (updateMessageStatus j st now faults s))"
proof -
  show "presence_inv (fst (sendMessage p u n c r ru now faults s))"
    using sendMessage_state[of p u n c r ru now faults s] assms
    by (auto simp: presence_inv_fields)
  show "presence_inv (fst (editMessage j u c now faults s))"
    using editMessage_state[of j u c now faults s] assms by (auto simp: presence_inv_fields)
  show "presence_inv (fst (deleteMessage j u now faults s))"
    using deleteMessage_state[of j u now faults s] assms by (auto simp: presence_inv_fields)
  show "presence_inv (fst (updateMessageStatus j st now faults s))"
    using updateMessageStatus_state[of j st now faults s] assms
    by (auto simp: presence_inv_fields)
qed

lemma send_message_state:
  "\<exists>m row. fst (send_message sid p u n c r ru now faults s) = s\<lparr>userMessageRateLimit := m\<rparr>
     \<or> fst (send_message sid p u n c r ru now faults s)
          = insertMessage (s\<lparr>userMessageRateLimit := m\<rparr>) row
     \<or> fst (send_message sid p u n c r ru now faults s)
          = fst (clearTypingIndicator (insertMessage (s\<lparr>userMessageRateLimit := m\<rparr>) row) p u)"
  by (simp add: send_message_def split_def Let_def) blast

lemma presence_inv_send:
  assumes "presence_inv s"
  shows "presence_inv (fst (send_message sid p u n c r ru now faults s))"
proof -
  from send_message_state[of sid p u n c r ru now faults s] obtain m row where
    "fst (send_message sid p u n c r ru now faults s) = s\<lparr>userMessageRateLimit := m\<rparr>
     \<or> fst (send_message sid p u n c r ru now faults s)
          = insertMessage (s\<lparr>userMessageRateLimit := m\<rparr>) row
     \<or> fst (send_message sid p u n c r ru now faults s)
          = fst (clearTypingIndicator (insertMessage (s\<lparr>userMessageRateLimit := m\<rparr>) row) p u)"
    by blast
  moreover have "presence_inv (insertMessage (s\<lparr>userMessageRateLimit := m\<rparr>) row)"
    using assms by (simp only: presence_inv_fields)
  moreover from this
  have "presence_inv (fst (clearTypingIndicator (insertMessage (s\<lparr>userMessageRateLimit := m\<rparr>) row) p u))"
    by (rule presence_inv_clear)
  moreover have "presence_inv (s\<lparr>userMessageRateLimit := m\<rparr>)"
    using assms by (simp only: presence_inv_fields)
  ultimately show ?thesis by metis
qed

lemma presence_inv_edit:
  assumes "presence_inv s"
  shows "presence_inv (fst (edit_message sid i u c now faults s))"
  using assms by (simp add: edit_message_def Let_def presence_inv_fields split: option.splits)

lemma presence_inv_delete:
  assumes "presence_inv s"
  shows "presence_inv (fst (delete_message sid i u now faults s))"
  using assms by (simp add: delete_message_def presence_inv_fields split: option.splits)

lemma presence_inv_join:
  assumes "presence_inv s"
  shows "presence_inv (fst (join_project_chat sid p u n now faults s))"
  using assms by (simp add: join_project_chat_def presence_inv_fields)

lemma presence_inv_disconnect:
  assumes "presence_inv s"
  shows "presence_inv (fst (disconnect sid now s))"
proof -
  have a: "presence_inv (s\<lparr>sockets := k\<rparr>)" for k
    using assms by (simp only: presence_inv_fields)
  have b: "presence_inv (fst (clearTypingIndicator (s\<lparr>sockets := k\<rparr>) p u))" for k p u
    using a by (rule presence_inv_clear)
  show ?thesis
    using assms a b by (simp add: disconnect_def Let_def split_def split: option.splits)
qed

lemma presence_inv_handle:
  assumes "presence_inv s"
  shows "presence_inv (fst (handle e now faults s))"
proof (cases e)
  case (Connect sid)
  then show ?thesis using assms by (simp add: presence_inv_fields)
next
  case (JoinProjectChat sid p u n)
  then show ?thesis using assms by (simp add: presence_inv_join)
next
  case (SendMessage sid p u n c r ru)
  then show ?thesis using assms by (simp add: presence_inv_send)
next
  case (Typing sid p u n)
  then show ?thesis using assms by (simp add: presence_inv_typing)
next
  case (StopTyping sid p u)
  then show ?thesis using assms by (simp add: stop_typing_def presence_inv_clear)
next
  case (EditMessage sid i u c)
  then show ?thesis using assms by (simp add: presence_inv_edit)
next
  case (DeleteMessage sid i u)
  then show ?thesis using assms by (simp add: presence_inv_delete)
next
  case (Disconnect sid)
  then show ?thesis using assms by (simp add: presence_inv_disconnect)
next
  case (TimeoutFires t)
  then show ?thesis using assms by (simp add: presence_inv_timeout_fires)
next
  case (HttpSendMessage p u n c r ru)
  then show ?thesis using assms by (simp add: presence_inv_http)
next
  case (HttpEditMessage j u c)
  then show ?thesis using assms by (simp add: presence_inv_http)
next
  case (HttpDeleteMessage j u)
  then show ?thesis using assms by (simp add: presence_inv_http)
next
  case (HttpUpdateMessageStatus j st)
  then show ?thesis using assms by (simp add: presence_inv_http)
qed

lemma presence_inv_step: "presence_inv s \<Longrightarrow> presence_inv (step s x)"
  using presence_inv_handle[of s] by (cases x) (simp add: step_def split: option.splits)

lemma presence_inv_run: "presence_inv s \<Longrightarrow> presence_inv (run s xs)"
  unfolding run_def
proof (induction xs arbitrary: s)
  case Nil
  then show ?case by simp
next
  case (Cons x xs)
  from Cons.prems have "presence_inv (step s x)" by (rule presence_inv_step)
  then have "presence_inv (foldl step (step s x) xs)" by (rule Cons.IH)
  then show ?case by simp
qed

lemma presence_inv_start: "presence_inv (startState ps pms cms sq)"
  by (simp add: presence_inv_def startState_def typingEntry_def)

subsection \<open>One entry and one timer per user\<close>

lemma concat_lookup:
  "distinct (map fst al) \<Longrightarrow>
   concat (map (\<lambda>(k, v). if k = a then g v else []) al)
     = (case map_of al a of None \<Rightarrow> [] | Some v \<Rightarrow> g v)"
proof (induction al)
  case Nil
  then show ?case by simp
next
  case (Cons x al)
  obtain k v where x: "x = (k, v)" by (cases x)
  show ?case
  proof (cases "k = a")
    case True
    then have "a \<notin> fst ` set al" using Cons.prems x by auto
    then have "map_of al a = None" by (simp add: map_of_eq_None_iff)
    then show ?thesis using Cons x True by simp
  next
    case False
    then show ?thesis using Cons x by simp
  qed
qed

lemma typingEntries_eq:
  assumes "presence_inv s"
  shows "typingEntries s p u = (case typingEntry s p u of None \<Rightarrow> [] | Some t \<Rightarrow> [t])"
proof -
  from assms have i1: "distinct (map fst (typingUsers s))"
    and i2: "\<And>p pt. map_of (typingUsers s) p = Some pt \<Longrightarrow> distinct (map fst pt)"
    by (simp_all add: presence_inv_def)
  let ?G = "\<lambda>pt. concat (map (\<lambda>(u', t). if u' = u then [t] else []) pt)"
  have "typingEntries s p u = (case map_of (typingUsers s) p of None \<Rightarrow> [] | Some pt \<Rightarrow> ?G pt)"
    unfolding typingEntries_def using i1 by (rule concat_lookup)
  also have "\<dots> = (case typingEntry s p u of None \<Rightarrow> [] | Some t \<Rightarrow> [t])"
  proof (cases "map_of (typingUsers s) p")
    case None
    then show ?thesis by (simp add: typingEntry_def)
  next
    case (Some pt)
    then have "distinct (map fst pt)" by (rule i2)
    then have "?G pt = (case map_of pt u of None \<Rightarrow> [] | Some t \<Rightarrow> [t])"
      by (rule concat_lookup)
    then show ?thesis using Some by (simp add: typingEntry_def)
  qed
  finally show ?thesis .
qed

lemma filter_value_lookup:
  "distinct (map fst al) \<Longrightarrow>
   map fst (filter (\<lambda>(k, v). v = b) al) = filter (\<lambda>k. map_of al k = Some b) (map fst al)"
proof (induction al)
  case Nil
  then show ?case by simp
next
  case (Cons x al)
  obtain k v where x: "x = (k, v)" by (cases x)
  have k: "k \<notin> fst ` set al" and d: "distinct (map fst al)" using Cons.prems x by auto
  have "filter (\<lambda>k'. map_of (x # al) k' = Some b) (map fst al)
          = filter (\<lambda>k'. map_of al k' = Some b) (map fst al)"
    using k x by (intro filter_cong refl) auto
  then show ?case using Cons.IH[OF d] x by simp
qed

lemma filter_eq_distinct:
  "distinct xs \<Longrightarrow> filter (\<lambda>k. k = a) xs = (if a \<in> set xs then [a] else [])"
  by (induction xs) auto

lemma liveTimers_eq:
  assumes "presence_inv s"
  shows "liveTimers s p u = (case typingEntry s p u of None \<Rightarrow> [] | Some t \<Rightarrow> [t])"
proof -
  from assms have i3: "distinct (map fst (timeouts s))"
    and i5: "\<And>t. typingEntry s p u = Some t \<longleftrightarrow> map_of (timeouts s) t = Some (p, u)"
    by (simp_all add: presence_inv_def)
  have "liveTimers s p u = filter (\<lambda>k. map_of (timeouts s) k = Some (p, u)) (map fst (timeouts s))"
    unfolding liveTimers_def using i3 by (rule filter_value_lookup)
  also have "\<dots> = filter (\<lambda>k. typingEntry s p u = Some k) (map fst (timeouts s))"
    by (simp only: i5)
  also have "\<dots> = (case typingEntry s p u of None \<Rightarrow> [] | Some t \<Rightarrow> [t])"
  proof (cases "typingEntry s p u")
    case None
    then show ?thesis by simp
  next
    case (Some t)
    then have "map_of (timeouts s) t = Some (p, u)" by (simp only: i5)
    then have "(t, (p, u)) \<in> set (timeouts s)" by (rule map_of_SomeD)
    then have "t \<in> set (map fst (timeouts s))" by force
    moreover have "filter (\<lambda>k. Some t = Some k) (map fst (timeouts s))
                     = filter (\<lambda>k. k = t) (map fst (timeouts s))"
      by (intro filter_cong refl) auto
    ultimately show ?thesis using Some i3 by (simp add: filter_eq_distinct)
  qed
  finally show ?thesis .
qed

lemma typing_reads_fields [simp]:
  "typingEntry (s\<lparr>sockets := k\<rparr>) = typingEntry s"
  "typingEntry (s\<lparr>userMessageRateLimit := m\<rparr>) = typingEntry s"
  "typingEntry (insertMessage s row) = typingEntry s"
  by (simp_all add: typingEntry_def insertMessage_def fun_eq_iff)

lemma disconnect_clears:
  assumes "map_of (sockets s) sid = Some c" and "sock_projectId c = Some p"
    and "sock_userId c = Some u" and "p \<noteq> 0" and "u \<noteq> 0"
  shows "fst (disconnect sid now s)
           = fst (clearTypingIndicator (s\<lparr>sockets := AList.delete sid (sockets s)\<rparr>) p u)"
  using assms by (simp add: disconnect_def truthy_def Let_def split_def)

text \<open>
  Claim C7. In every state the server reaches from its start, for every project and
  user: the typing map holds at most one entry for the pair, at most one timeout is
  pending for it, and the entry's handle is that timeout. A typing signal leaves exactly
  one pending timeout, and so does a second signal after it (the old handle is cleared,
  not kept). One clear removes the entry and leaves no timeout pending, whether it is an
  explicit stop, the expiry of the pending timeout, the disconnect of a connection
  stamped with the pair, or an accepted send of the user to the project.
\<close>

theorem C7_one_entry_one_timer:
  "presence_inv (run (startState ps pms cms sq) xs)
   \<and> (s = run (startState ps pms cms sq) xs \<longrightarrow>
        length (typingEntries s p u) \<le> 1 \<and> length (liveTimers s p u) \<le> 1
        \<and> typingEntries s p u = liveTimers s p u
        \<and> length (liveTimers (fst (typing sid p u n s)) p u) = 1
        \<and> length (liveTimers (fst (typing sid' p u n' (fst (typing sid p u n s)))) p u) = 1
        \<and> typingEntries (fst (typing sid' p u n' (fst (typing sid p u n s)))) p u
            = liveTimers (fst (typing sid' p u n' (fst (typing sid p u n s)))) p u
        \<and> typingEntries (fst (stop_typing sid p u s)) p u = []
        \<and> liveTimers (fst (stop_typing sid p u s)) p u = []
        \<and> (\<forall>t\<in>set (liveTimers s p u).
              typingEntries (fst (timeout_fires t s)) p u = []
              \<and> liveTimers (fst (timeout_fires t s)) p u = [])
        \<and> (map_of (sockets s) sid = Some c \<and> sock_projectId c = Some p \<and> sock_userId c = Some u
              \<and> p \<noteq> 0 \<and> u \<noteq> 0 \<longrightarrow>
              typingEntries (fst (disconnect sid now s)) p u = []
              \<and> liveTimers (fst (disconnect sid now s)) p u = [])
        \<and> (fst (rateLimit (userMessageRateLimit s) u now) \<and> \<not> emptyContent mc
              \<and> isProjectMember s p u \<noteq> None \<and> faults = {} \<longrightarrow>
              typingEntries (fst (send_message sid p u n mc r ru now faults s)) p u = []
              \<and> liveTimers (fst (send_message sid p u n mc r ru now faults s)) p u = []))"
proof (intro conjI impI ballI)
  show inv0: "presence_inv (run (startState ps pms cms sq) xs)"
    using presence_inv_start by (rule presence_inv_run)
  assume s: "s = run (startState ps pms cms sq) xs"
  have inv: "presence_inv s" unfolding s by (rule inv0)
  show "length (typingEntries s p u) \<le> 1"
    by (simp add: typingEntries_eq[OF inv] split: option.splits)
  show "length (liveTimers s p u) \<le> 1"
    by (simp add: liveTimers_eq[OF inv] split: option.splits)
  show "typingEntries s p u = liveTimers s p u"
    by (simp add: typingEntries_eq[OF inv] liveTimers_eq[OF inv])
  have invT: "presence_inv (fst (typing sid p u n s))"
    using inv by (rule presence_inv_typing)
  show "length (liveTimers (fst (typing sid p u n s)) p u) = 1"
    by (simp add: liveTimers_eq[OF invT] typingEntry_typing)
  have invTT: "presence_inv (fst (typing sid' p u n' (fst (typing sid p u n s))))"
    using invT by (rule presence_inv_typing)
  show "length (liveTimers (fst (typing sid' p u n' (fst (typing sid p u n s)))) p u) = 1"
    by (simp add: liveTimers_eq[OF invTT] typingEntry_typing)
  show "typingEntries (fst (typing sid' p u n' (fst (typing sid p u n s)))) p u
            = liveTimers (fst (typing sid' p u n' (fst (typing sid p u n s)))) p u"
    by (simp add: typingEntries_eq[OF invTT] liveTimers_eq[OF invTT])
  have cleared: "typingEntries (fst (clearTypingIndicator s0 p u)) p u = []
                 \<and> liveTimers (fst (clearTypingIndicator s0 p u)) p u = []"
    if "presence_inv s0" for s0
  proof -
    have "presence_inv (fst (clearTypingIndicator s0 p u))"
      using that by (rule presence_inv_clear)
    then show ?thesis by (simp add: typingEntries_eq liveTimers_eq typingEntry_clear)
  qed
  show "typingEntries (fst (stop_typing sid p u s)) p u = []"
    and "liveTimers (fst (stop_typing sid p u s)) p u = []"
    using cleared[OF inv] by (simp_all add: stop_typing_def)
  {
    fix t assume "t \<in> set (liveTimers s p u)"
    then have e: "typingEntry s p u = Some t"
      by (simp add: liveTimers_eq[OF inv] split: option.splits)
    from inv have "typingEntry s p u = Some t \<longleftrightarrow> map_of (timeouts s) t = Some (p, u)"
      by (simp add: presence_inv_def)
    with e have "map_of (timeouts s) t = Some (p, u)" by simp
    then have f: "fst (timeout_fires t s) = fst (clearTypingIndicator s p u)"
      using e by (simp add: timeout_fires_def clear_after_fired)
    show "typingEntries (fst (timeout_fires t s)) p u = []"
      and "liveTimers (fst (timeout_fires t s)) p u = []"
      unfolding f using cleared[OF inv] by simp_all
  }
  {
    assume d: "map_of (sockets s) sid = Some c \<and> sock_projectId c = Some p \<and> sock_userId c = Some u
              \<and> p \<noteq> 0 \<and> u \<noteq> 0"
    have f: "fst (disconnect sid now s)
               = fst (clearTypingIndicator (s\<lparr>sockets := AList.delete sid (sockets s)\<rparr>) p u)"
      using d by (intro disconnect_clears) auto
    have "presence_inv (s\<lparr>sockets := AList.delete sid (sockets s)\<rparr>)"
      using inv by (simp only: presence_inv_fields)
    from cleared[OF this]
    show "typingEntries (fst (disconnect sid now s)) p u = []"
      and "liveTimers (fst (disconnect sid now s)) p u = []"
      unfolding f by simp_all
  }
  {
    assume a: "fst (rateLimit (userMessageRateLimit s) u now) \<and> \<not> emptyContent mc
              \<and> isProjectMember s p u \<noteq> None \<and> faults = {}"
    define target where
      "target = (case r of Some i \<Rightarrow> if i \<noteq> 0 then getLiveMessage s i else None | None \<Rightarrow> None)"
    define row where
      "row = newRow s now p u n (case mc of Some x \<Rightarrow> x | None \<Rightarrow> []) (orNull r) (orNull ru)
               (map_option cm_senderName target) (map_option cm_messageContent target)"
    define s2 where
      "s2 = insertMessage
              (s\<lparr>userMessageRateLimit := snd (rateLimit (userMessageRateLimit s) u now)\<rparr>) row"
    from a have a1: "fst (rateLimit (userMessageRateLimit s) u now)" and a2: "\<not> emptyContent mc"
      and a3: "isProjectMember s p u \<noteq> None" and a4: "faults = {}" by simp_all
    have s2: "fst (send_message sid p u n mc r ru now faults s) = fst (clearTypingIndicator s2 p u)"
      unfolding send_message_accepted[OF a1 a2 a3 a4 target_def row_def s2_def] by simp
    have "presence_inv s2" unfolding s2_def using inv by (simp only: presence_inv_fields)
    from cleared[OF this]
    show "typingEntries (fst (send_message sid p u n mc r ru now faults s)) p u = []"
      and "liveTimers (fst (send_message sid p u n mc r ru now faults s)) p u = []"
      unfolding s2 by simp_all
  }
qed


theorem C7_witness:
  "run (startState [] [] [] 0)
       [(Connect 1, 0, {}), (Typing 1 7 1 [65], 0, {}), (Typing 1 7 1 [65], 1000, {})]
     = \<lparr>userMessageRateLimit = [], typingUsers = [(7, [(1, 1)])], timeouts = [(1, 7, 1)],
        nextTimeout = 2, sockets = [(1, newSocket)], Projects = [], ProjectMembers = [],
        ChatMessages = [], ChatMessages_seq = 0\<rparr>
   \<and> typingEntries (run (startState [] [] [] 0)
       [(Connect 1, 0, {}), (Typing 1 7 1 [65], 0, {}), (Typing 1 7 1 [65], 1000, {})]) 7 1 = [1]
   \<and> liveTimers (run (startState [] [] [] 0)
       [(Connect 1, 0, {}), (Typing 1 7 1 [65], 0, {}), (Typing 1 7 1 [65], 1000, {})]) 7 1 = [1]
   \<and> length (liveTimers (run (startState [] [] [] 0)
       [(Connect 1, 0, {}), (Typing 1 7 1 [65], 0, {}), (Typing 1 7 1 [65], 1000, {})]) 7 1) \<le> 1
   \<and> liveTimers (fst (stop_typing 1 7 1 (run (startState [] [] [] 0)
       [(Connect 1, 0, {}), (Typing 1 7 1 [65], 0, {}), (Typing 1 7 1 [65], 1000, {})]))) 7 1 = []
   \<and> timeouts (fst (timeout_fires 1 (run (startState [] [] [] 0)
       [(Connect 1, 0, {}), (Typing 1 7 1 [65], 0, {}), (Typing 1 7 1 [65], 1000, {})]))) = []"
proof -
  let ?xs = "[(Connect 1, 0, {}), (Typing 1 7 1 [65], 0, {}), (Typing 1 7 1 [65], 1000::int, {}::nat set)]"
  let ?S = "\<lparr>userMessageRateLimit = [], typingUsers = [(7, [(1, 1)])], timeouts = [(1, 7, 1)],
        nextTimeout = 2, sockets = [(1, newSocket)], Projects = [], ProjectMembers = [],
        ChatMessages = [], ChatMessages_seq = 0\<rparr>"
  have r: "run (startState [] [] [] 0) ?xs = ?S"
    by (simp add: run_def step_def typing_def clearTypingIndicator_def setTimeout_def
        clearTimeout_def startState_def split_def Let_def)
  have a: "typingEntries ?S 7 1 = [1]" by (simp add: typingEntries_def)
  have b: "liveTimers ?S 7 1 = [1]" by (simp add: liveTimers_def)
  have c: "timeouts (fst (timeout_fires 1 ?S)) = []"
    by (simp add: timeout_fires_def clearTypingIndicator_def clearTimeout_def Let_def)
  from C7_one_entry_one_timer [where s = "run (startState [] [] [] 0) ?xs" and ps = "[]"
      and pms = "[]" and cms = "[]" and sq = 0 and xs = ?xs and p = 7 and u = 1 and sid = 1]
  have d: "length (liveTimers (run (startState [] [] [] 0) ?xs) 7 1) \<le> 1"
    and e: "liveTimers (fst (stop_typing 1 7 1 (run (startState [] [] [] 0) ?xs))) 7 1 = []"
    by blast+
  show ?thesis using r a b c d e by simp
qed

subsection \<open>The rate limiter in the event loop\<close>

lemma rateLimit_other:
  "u' \<noteq> u \<Longrightarrow> map_of (snd (rateLimit m u' now)) u = map_of m u"
  by (auto simp: rateLimit_def update_conv' split: option.splits)

lemma rateLimit_cong:
  assumes "map_of m u = map_of m' u"
  shows "fst (rateLimit m u now) = fst (rateLimit m' u now)"
    and "map_of (snd (rateLimit m u now)) u = map_of (snd (rateLimit m' u now)) u"
  using assms by (auto simp: rateLimit_def update_conv' split: option.splits)

lemma rateLimitAll_Cons:
  "rateLimitAll m u (t # ts)
     = (fst (rateLimit m u t) # fst (rateLimitAll (snd (rateLimit m u t)) u ts),
        snd (rateLimitAll (snd (rateLimit m u t)) u ts))"
  by (simp add: split_def Let_def)

lemma rateLimitAll_cong:
  assumes "map_of m u = map_of m' u"
  shows "fst (rateLimitAll m u ts) = fst (rateLimitAll m' u ts)
         \<and> map_of (snd (rateLimitAll m u ts)) u = map_of (snd (rateLimitAll m' u ts)) u"
  using assms
proof (induction ts arbitrary: m m')
  case Nil
  then show ?case by simp
next
  case (Cons t ts)
  have a: "fst (rateLimit m u t) = fst (rateLimit m' u t)"
    and b: "map_of (snd (rateLimit m u t)) u = map_of (snd (rateLimit m' u t)) u"
    using Cons.prems by (rule rateLimit_cong)+
  from Cons.IH[OF b] a show ?case by (simp add: rateLimitAll_Cons del: rateLimitAll.simps)
qed

lemma send_message_window:
  "userMessageRateLimit (fst (send_message sid p u n c r ru now faults s))
     = snd (rateLimit (userMessageRateLimit s) u now)"
  by (simp add: send_message_def split_def Let_def insertMessage_def)

lemma send_message_throttled_iff:
  "throttled sid (snd (send_message sid p u n c r ru now faults s))
     \<longleftrightarrow> \<not> fst (rateLimit (userMessageRateLimit s) u now)"
  by (simp add: send_message_def split_def Let_def throttled_def)

lemma send_message_sockets_kept:
  "sockets (fst (send_message sid p u n c r ru now faults s)) = sockets s"
  by (simp add: send_message_def split_def Let_def insertMessage_def)


lemma window_kept [simp]:
  "userMessageRateLimit (fst (typing sid p u n s)) = userMessageRateLimit s"
  "userMessageRateLimit (fst (stop_typing sid p u s)) = userMessageRateLimit s"
  "userMessageRateLimit (fst (timeout_fires t s)) = userMessageRateLimit s"
  "userMessageRateLimit (fst (join_project_chat sid p u n now faults s)) = userMessageRateLimit s"
  "userMessageRateLimit (fst (disconnect sid now s)) = userMessageRateLimit s"
  "userMessageRateLimit (fst (edit_message sid i u c now faults s)) = userMessageRateLimit s"
  "userMessageRateLimit (fst (delete_message sid i u now faults s)) = userMessageRateLimit s"
  by (simp_all add: typing_def setTimeout_def stop_typing_def timeout_fires_def clearTimeout_def
        join_project_chat_def disconnect_def edit_message_def delete_message_def
        updateContent_def softDelete_def split_def Let_def split: option.splits)

lemma window_kept_http [simp]:
  "userMessageRateLimit (fst (sendMessage p u n c r ru now faults s)) = userMessageRateLimit s"
  "userMessageRateLimit (fst (editMessage i u c now faults s)) = userMessageRateLimit s"
  "userMessageRateLimit (fst (deleteMessage i u now faults s)) = userMessageRateLimit s"
  "userMessageRateLimit (fst (updateMessageStatus i st now faults s)) = userMessageRateLimit s"
proof -
  show "userMessageRateLimit (fst (sendMessage p u n c r ru now faults s)) = userMessageRateLimit s"
    using sendMessage_state[of p u n c r ru now faults s] by (auto simp: insertMessage_def)
  show "userMessageRateLimit (fst (editMessage i u c now faults s)) = userMessageRateLimit s"
    using editMessage_state[of i u c now faults s] by (auto simp: updateContent_def)
  show "userMessageRateLimit (fst (deleteMessage i u now faults s)) = userMessageRateLimit s"
    using deleteMessage_state[of i u now faults s] by (auto simp: softDelete_def)
  show "userMessageRateLimit (fst (updateMessageStatus i st now faults s)) = userMessageRateLimit s"
    using updateMessageStatus_state[of i st now faults s] by (auto simp: setStatus_def)
qed

lemma handle_window_other:
  assumes "\<And>sid p n c r ru. e \<noteq> SendMessage sid p u n c r ru"
  shows "map_of (userMessageRateLimit (fst (handle e now faults s))) u
           = map_of (userMessageRateLimit s) u"
proof (cases e)
  case (SendMessage sid p u' n c r ru)
  have "u' \<noteq> u"
  proof
    assume "u' = u"
    then have "e = SendMessage sid p u n c r ru" using SendMessage by simp
    then show False using assms by blast
  qed
  then show ?thesis using SendMessage by (simp add: send_message_window rateLimit_other)
qed simp_all

lemma step_window_other:
  assumes "\<And>sid p n c r ru. e \<noteq> SendMessage sid p u n c r ru"
  shows "map_of (userMessageRateLimit (step s (e, now, faults))) u
           = map_of (userMessageRateLimit s) u"
  using handle_window_other[OF assms, of now faults s]
  by (simp add: step_def split: option.splits)

lemma step_sockets_kept:
  "sockets (step s (SendMessage sid p u n c r ru, now, faults)) = sockets s"
  "sockets (step s (Typing sid p u n, now, faults)) = sockets s"
  by (simp_all add: step_def send_message_sockets_kept typing_def setTimeout_def split_def Let_def
        split: option.splits)

lemma sendOutcomes_other:
  assumes "\<And>sid p n c r ru. e \<noteq> SendMessage sid p u n c r ru"
  shows "sendOutcomes u s ((e, now, faults) # xs) = sendOutcomes u (step s (e, now, faults)) xs"
proof (cases e)
  case (SendMessage sid p u' n c r ru)
  have "u' \<noteq> u"
  proof
    assume "u' = u"
    then have "e = SendMessage sid p u n c r ru" using SendMessage by simp
    then show False using assms by blast
  qed
  then show ?thesis using SendMessage by simp
qed simp_all

lemma sendOutcomes_rateLimitAll:
  "map snd (sendOutcomes u s xs)
     = fst (rateLimitAll (userMessageRateLimit s) u (map fst (sendOutcomes u s xs)))
   \<and> map_of (userMessageRateLimit (run s xs)) u
     = map_of (snd (rateLimitAll (userMessageRateLimit s) u (map fst (sendOutcomes u s xs)))) u"
proof (induction xs arbitrary: s)
  case Nil
  show ?case by (simp add: run_def)
next
  case (Cons x xs)
  obtain e now faults where x: "x = (e, now, faults)" by (cases x)
  let ?s' = "step s x"
  let ?ts = "map fst (sendOutcomes u ?s' xs)"
  have run: "run s (x # xs) = run ?s' xs" by (simp add: run_def)
  note IH = Cons.IH[of ?s']
  show ?case
  proof (cases "\<exists>sid p n c r ru. e = SendMessage sid p u n c r ru")
    case False
    then have ne: "\<And>sid p n c r ru. e \<noteq> SendMessage sid p u n c r ru" by blast
    have o: "sendOutcomes u s (x # xs) = sendOutcomes u ?s' xs"
      unfolding x using ne by (rule sendOutcomes_other)
    have "map_of (userMessageRateLimit ?s') u = map_of (userMessageRateLimit s) u"
      unfolding x using ne by (rule step_window_other)
    from rateLimitAll_cong[OF this, of ?ts] IH show ?thesis
      unfolding o run by simp
  next
    case True
    then obtain sid p n c r ru where e: "e = SendMessage sid p u n c r ru" by blast
    show ?thesis
    proof (cases "map_of (sockets s) sid = None")
      case True
      then have s': "?s' = s" by (simp add: x e step_def)
      have o: "sendOutcomes u s (x # xs) = sendOutcomes u ?s' xs"
        using True by (simp add: x e)
      from IH show ?thesis unfolding o run unfolding s' by simp
    next
      case False
      then have s': "?s' = fst (send_message sid p u n c r ru now faults s)"
        by (auto simp: x e step_def)
      have w: "userMessageRateLimit ?s' = snd (rateLimit (userMessageRateLimit s) u now)"
        unfolding s' by (rule send_message_window)
      have o: "sendOutcomes u s (x # xs)
                 = (now, fst (rateLimit (userMessageRateLimit s) u now)) # sendOutcomes u ?s' xs"
        using False by (auto simp: x e send_message_throttled_iff)
      from IH show ?thesis
        unfolding o run w by (simp add: rateLimitAll_Cons del: rateLimitAll.simps)
    qed
  qed
qed


lemma send_message_admitted_no_throttle:
  assumes "fst (rateLimit (userMessageRateLimit s) u now)"
  shows "(ToSocket sid', Error ''You are sending messages too quickly. Please wait a moment.'')
           \<notin> set (snd (send_message sid p u n c r ru now faults s))"
  using assms
  by (simp add: send_message_def split_def Let_def clearTypingIndicator_out split: option.splits)

lemma send_message_refines:
  "(decision (\<not> throttled sid (snd (send_message sid p u n c r ru now faults s))),
    map_of (userMessageRateLimit (fst (send_message sid p u n c r ru now faults s))))
     = admit_spec (map_of (userMessageRateLimit s)) u now"
  by (simp only: send_message_throttled_iff send_message_window not_not rateLimit_refines)

lemma sendOutcomes_full_capacity:
  assumes "map_of (userMessageRateLimit s) u = None
           \<or> (\<exists>d. map_of (userMessageRateLimit s) u = Some d \<and> RATE_LIMIT_WINDOW \<le> now - timestamp d)"
    and "map fst (sendOutcomes u s xs) = now # ts"
    and "\<forall>t\<in>set ts. t - now < RATE_LIMIT_WINDOW"
  shows "map snd (sendOutcomes u s xs) = map (\<lambda>i. i < MAX_MESSAGES_PER_WINDOW) [0..<Suc (length ts)]"
proof -
  have "map snd (sendOutcomes u s xs) = fst (rateLimitAll (userMessageRateLimit s) u (now # ts))"
    using sendOutcomes_rateLimitAll[of u s xs] by (simp only: assms(2))
  also have "\<dots> = map (\<lambda>i. i < MAX_MESSAGES_PER_WINDOW) [0..<Suc (length ts)]"
    using assms(1,3) by (rule rateLimit_full_capacity)
  finally show ?thesis .
qed

text \<open>
  Claim C1. The rate-limiting block of \<open>send-message\<close> is the fixed-window rule of the
  specification: no window, or a window at least 10 seconds old, opens a window with
  count 1 and admits; a younger window admits and counts while the count is below 5,
  and otherwise rejects and leaves the map (and the whole state) untouched. The handler
  follows the block: it stores the map the block leaves, it answers with the throttling
  error exactly when the block rejects, and an admitted send never gets that error.
  In a run of the event loop, whatever other events come in between, the delivered
  send-message events of one sender are decided as the rule decides the sequence of
  their clock readings, and the sender's window after the run is the one the rule
  leaves. From a fresh window on, the sends that fall inside it are admitted up to the
  fifth and rejected from the sixth: admission is back at full capacity.
\<close>

theorem C1_rate_limiter_fixed_window:
  "(decision (fst (rateLimit m s now)), map_of (snd (rateLimit m s now)))
      = admit_spec (map_of m) s now
   \<and> ((map_of m s = None \<or> (\<exists>d. map_of m s = Some d \<and> RATE_LIMIT_WINDOW \<le> now - timestamp d))
        \<and> (\<forall>t\<in>set ts. t - now < RATE_LIMIT_WINDOW)
      \<longrightarrow> fst (rateLimitAll m s (now # ts))
            = map (\<lambda>i. i < MAX_MESSAGES_PER_WINDOW) [0..<Suc (length ts)])
   \<and> (\<not> fst (rateLimit (userMessageRateLimit st) s now)
      \<longrightarrow> send_message sid p s n c r ru now faults st
            = (st, [(ToSocket sid,
                     Error ''You are sending messages too quickly. Please wait a moment.'')]))
   \<and> (decision (\<not> throttled sid (snd (send_message sid p s n c r ru now faults st))),
       map_of (userMessageRateLimit (fst (send_message sid p s n c r ru now faults st))))
      = admit_spec (map_of (userMessageRateLimit st)) s now
   \<and> userMessageRateLimit (fst (send_message sid p s n c r ru now faults st))
      = snd (rateLimit (userMessageRateLimit st) s now)
   \<and> (throttled sid (snd (send_message sid p s n c r ru now faults st))
        \<longleftrightarrow> \<not> fst (rateLimit (userMessageRateLimit st) s now))
   \<and> (fst (rateLimit (userMessageRateLimit st) s now)
      \<longrightarrow> (ToSocket sid', Error ''You are sending messages too quickly. Please wait a moment.'')
            \<notin> set (snd (send_message sid p s n c r ru now faults st)))
   \<and> map snd (sendOutcomes s st xs)
      = fst (rateLimitAll (userMessageRateLimit st) s (map fst (sendOutcomes s st xs)))
   \<and> map_of (userMessageRateLimit (run st xs)) s
      = map_of (snd (rateLimitAll (userMessageRateLimit st) s (map fst (sendOutcomes s st xs)))) s
   \<and> ((map_of (userMessageRateLimit st) s = None
         \<or> (\<exists>d. map_of (userMessageRateLimit st) s = Some d
                 \<and> RATE_LIMIT_WINDOW \<le> now - timestamp d))
        \<and> map fst (sendOutcomes s st xs) = now # ts
        \<and> (\<forall>t\<in>set ts. t - now < RATE_LIMIT_WINDOW)
      \<longrightarrow> map snd (sendOutcomes s st xs)
            = map (\<lambda>i. i < MAX_MESSAGES_PER_WINDOW) [0..<Suc (length ts)])"
proof (intro conjI impI)
  show "(decision (fst (rateLimit m s now)), map_of (snd (rateLimit m s now)))
      = admit_spec (map_of m) s now"
    by (rule rateLimit_refines)
next
  assume "(map_of m s = None \<or> (\<exists>d. map_of m s = Some d \<and> RATE_LIMIT_WINDOW \<le> now - timestamp d))
        \<and> (\<forall>t\<in>set ts. t - now < RATE_LIMIT_WINDOW)"
  then show "fst (rateLimitAll m s (now # ts))
            = map (\<lambda>i. i < MAX_MESSAGES_PER_WINDOW) [0..<Suc (length ts)]"
    using rateLimit_full_capacity by blast
next
  assume a: "\<not> fst (rateLimit (userMessageRateLimit st) s now)"
  then have "snd (rateLimit (userMessageRateLimit st) s now) = userMessageRateLimit st"
    by (rule rateLimit_rejected_unchanged)
  with a show "send_message sid p s n c r ru now faults st
            = (st, [(ToSocket sid,
                     Error ''You are sending messages too quickly. Please wait a moment.'')])"
    by (simp add: send_message_def split_def)
next
  show "(decision (\<not> throttled sid (snd (send_message sid p s n c r ru now faults st))),
       map_of (userMessageRateLimit (fst (send_message sid p s n c r ru now faults st))))
      = admit_spec (map_of (userMessageRateLimit st)) s now"
    by (rule send_message_refines)
next
  show "userMessageRateLimit (fst (send_message sid p s n c r ru now faults st))
      = snd (rateLimit (userMessageRateLimit st) s now)"
    by (rule send_message_window)
next
  show "throttled sid (snd (send_message sid p s n c r ru now faults st))
        \<longleftrightarrow> \<not> fst (rateLimit (userMessageRateLimit st) s now)"
    by (rule send_message_throttled_iff)
next
  assume "fst (rateLimit (userMessageRateLimit st) s now)"
  then show "(ToSocket sid', Error ''You are sending messages too quickly. Please wait a moment.'')
            \<notin> set (snd (send_message sid p s n c r ru now faults st))"
    by (rule send_message_admitted_no_throttle)
next
  show "map snd (sendOutcomes s st xs)
      = fst (rateLimitAll (userMessageRateLimit st) s (map fst (sendOutcomes s st xs)))"
    using sendOutcomes_rateLimitAll[of s st xs] by blast
next
  show "map_of (userMessageRateLimit (run st xs)) s
      = map_of (snd (rateLimitAll (userMessageRateLimit st) s (map fst (sendOutcomes s st xs)))) s"
    using sendOutcomes_rateLimitAll[of s st xs] by blast
next
  assume a: "(map_of (userMessageRateLimit st) s = None
         \<or> (\<exists>d. map_of (userMessageRateLimit st) s = Some d
                 \<and> RATE_LIMIT_WINDOW \<le> now - timestamp d))
        \<and> map fst (sendOutcomes s st xs) = now # ts
        \<and> (\<forall>t\<in>set ts. t - now < RATE_LIMIT_WINDOW)"
  show "map snd (sendOutcomes s st xs)
            = map (\<lambda>i. i < MAX_MESSAGES_PER_WINDOW) [0..<Suc (length ts)]"
  proof (rule sendOutcomes_full_capacity[of st s now xs ts])
    show "map_of (userMessageRateLimit st) s = None
         \<or> (\<exists>d. map_of (userMessageRateLimit st) s = Some d
                 \<and> RATE_LIMIT_WINDOW \<le> now - timestamp d)"
      using a by (rule conjunct1)
    show "map fst (sendOutcomes s st xs) = now # ts"
      using a by (elim conjE)
    show "\<forall>t\<in>set ts. t - now < RATE_LIMIT_WINDOW"
      using a by (elim conjE)
  qed
qed


theorem C1_witness:
  "map_of (userMessageRateLimit
             (exState\<lparr>userMessageRateLimit := [(1, \<lparr>count = 5, timestamp = 0\<rparr>)]\<rparr>)) 1
     = Some \<lparr>count = 5, timestamp = 0\<rparr>
   \<and> RATE_LIMIT_WINDOW \<le> 10000 - timestamp \<lparr>count = 5, timestamp = 0\<rparr>
   \<and> list_all (\<lambda>t. t - 10000 < RATE_LIMIT_WINDOW) [10001, 12000, 15000, 19999, 19999]
   \<and> map fst (sendOutcomes 1 (exState\<lparr>userMessageRateLimit := [(1, \<lparr>count = 5, timestamp = 0\<rparr>)]\<rparr>)
        [(SendMessage 1 7 1 [65] (Some [104, 105]) None None, 10000, {}),
         (Typing 2 7 2 [66], 10000, {}),
         (SendMessage 1 7 1 [65] (Some [104, 105]) None None, 10001, {}),
         (SendMessage 2 7 2 [66] (Some [104, 105]) None None, 11000, {}),
         (SendMessage 1 7 1 [65] None None None, 12000, {}),
         (SendMessage 1 7 1 [65] (Some [104, 105]) None None, 15000, {}),
         (SendMessage 1 7 1 [65] (Some [104, 105]) None None, 19999, {}),
         (SendMessage 1 7 1 [65] (Some [104, 105]) None None, 19999, {})])
     = [10000, 10001, 12000, 15000, 19999, 19999]
   \<and> map snd (sendOutcomes 1 (exState\<lparr>userMessageRateLimit := [(1, \<lparr>count = 5, timestamp = 0\<rparr>)]\<rparr>)
        [(SendMessage 1 7 1 [65] (Some [104, 105]) None None, 10000, {}),
         (Typing 2 7 2 [66], 10000, {}),
         (SendMessage 1 7 1 [65] (Some [104, 105]) None None, 10001, {}),
         (SendMessage 2 7 2 [66] (Some [104, 105]) None None, 11000, {}),
         (SendMessage 1 7 1 [65] None None None, 12000, {}),
         (SendMessage 1 7 1 [65] (Some [104, 105]) None None, 15000, {}),
         (SendMessage 1 7 1 [65] (Some [104, 105]) None None, 19999, {}),
         (SendMessage 1 7 1 [65] (Some [104, 105]) None None, 19999, {})])
     = [True, True, True, True, True, False]
   \<and> fst (rateLimitAll [(7, \<lparr>count = 5, timestamp = 0\<rparr>)] 7
            [10000, 10001, 12000, 15000, 19999, 19999])
       = [True, True, True, True, True, False]
   \<and> send_message 1 7 1 [65] (Some [104, 105]) None None 1000 {}
         (exState\<lparr>userMessageRateLimit := [(1, \<lparr>count = 5, timestamp = 0\<rparr>)]\<rparr>)
       = (exState\<lparr>userMessageRateLimit := [(1, \<lparr>count = 5, timestamp = 0\<rparr>)]\<rparr>,
          [(ToSocket 1, Error ''You are sending messages too quickly. Please wait a moment.'')])"
proof -
  let ?st = "exState\<lparr>userMessageRateLimit := [(1, \<lparr>count = 5, timestamp = 0\<rparr>)]\<rparr>"
  let ?xs = "[(SendMessage 1 7 1 [65] (Some [104, 105]) None None, 10000, {}),
         (Typing 2 7 2 [66], 10000, {}),
         (SendMessage 1 7 1 [65] (Some [104, 105]) None None, 10001, {}),
         (SendMessage 2 7 2 [66] (Some [104, 105]) None None, 11000, {}),
         (SendMessage 1 7 1 [65] None None None, 12000, {}),
         (SendMessage 1 7 1 [65] (Some [104, 105]) None None, 15000, {}),
         (SendMessage 1 7 1 [65] (Some [104, 105]) None None, 19999, {}),
         (SendMessage 1 7 1 [65] (Some [104, 105]) None None, 19999::int, {}::nat set)]"
  let ?ts = "[10001, 12000, 15000, 19999, 19999::int]"
  have a: "map_of (userMessageRateLimit ?st) 1 = Some \<lparr>count = 5, timestamp = 0\<rparr>"
    by simp
  have b: "RATE_LIMIT_WINDOW \<le> 10000 - timestamp \<lparr>count = 5, timestamp = 0\<rparr>"
    by (simp add: RATE_LIMIT_WINDOW_def)
  have c: "\<forall>t\<in>set ?ts. t - 10000 < RATE_LIMIT_WINDOW"
    by (simp add: RATE_LIMIT_WINDOW_def)
  have f: "map fst (sendOutcomes 1 ?st ?xs) = 10000 # ?ts"
    by (simp add: step_sockets_kept exState_def)
  have r: "\<not> fst (rateLimit (userMessageRateLimit ?st) 1 1000)"
    by (simp add: rateLimit_def RATE_LIMIT_WINDOW_def MAX_MESSAGES_PER_WINDOW_def)
  note T = C1_rate_limiter_fixed_window
      [where m = "[(7, \<lparr>count = 5, timestamp = 0\<rparr>)]" and s = 1 and now = 10000 and ts = ?ts
         and st = ?st and xs = ?xs]
  note T2 = C1_rate_limiter_fixed_window
      [where s = 1 and now = 1000 and st = ?st and sid = 1 and p = 7 and n = "[65]"
         and c = "Some [104, 105]" and r = None and ru = None and faults = "{}"]
  have imp: "(map_of (userMessageRateLimit ?st) 1 = None
         \<or> (\<exists>d. map_of (userMessageRateLimit ?st) 1 = Some d
                 \<and> RATE_LIMIT_WINDOW \<le> 10000 - timestamp d))
        \<and> map fst (sendOutcomes 1 ?st ?xs) = 10000 # ?ts
        \<and> (\<forall>t\<in>set ?ts. t - 10000 < RATE_LIMIT_WINDOW)
      \<longrightarrow> map snd (sendOutcomes 1 ?st ?xs)
            = map (\<lambda>i. i < MAX_MESSAGES_PER_WINDOW) [0..<Suc (length ?ts)]"
    by (rule T [THEN conjunct2, THEN conjunct2, THEN conjunct2, THEN conjunct2, THEN conjunct2,
                THEN conjunct2, THEN conjunct2, THEN conjunct2, THEN conjunct2])
  have hyp: "(map_of (userMessageRateLimit ?st) 1 = None
         \<or> (\<exists>d. map_of (userMessageRateLimit ?st) 1 = Some d
                 \<and> RATE_LIMIT_WINDOW \<le> 10000 - timestamp d))
        \<and> map fst (sendOutcomes 1 ?st ?xs) = 10000 # ?ts
        \<and> (\<forall>t\<in>set ?ts. t - 10000 < RATE_LIMIT_WINDOW)"
    using a b c f by blast
  from imp hyp
  have o: "map snd (sendOutcomes 1 ?st ?xs)
             = map (\<lambda>i. i < MAX_MESSAGES_PER_WINDOW) [0..<Suc (length ?ts)]"
    by (rule mp)
  have imp2: "\<not> fst (rateLimit (userMessageRateLimit ?st) 1 1000)
      \<longrightarrow> send_message 1 7 1 [65] (Some [104, 105]) None None 1000 {} ?st
            = (?st, [(ToSocket 1,
                  Error ''You are sending messages too quickly. Please wait a moment.'')])"
    by (rule T2 [THEN conjunct2, THEN conjunct2, THEN conjunct1])
  from imp2 r
  have t: "send_message 1 7 1 [65] (Some [104, 105]) None None 1000 {} ?st
             = (?st, [(ToSocket 1,
                  Error ''You are sending messages too quickly. Please wait a moment.'')])"
    by (rule mp)
  have h: "fst (rateLimitAll [(7, \<lparr>count = 5, timestamp = 0\<rparr>)] 7 (10000 # ?ts))
             = [True, True, True, True, True, False]"
    by (simp add: rateLimit_def RATE_LIMIT_WINDOW_def MAX_MESSAGES_PER_WINDOW_def)
  show ?thesis
    using a b c f o t h by (simp add: MAX_MESSAGES_PER_WINDOW_def upt_rec)
qed

end
